theory Spec2Isabelle
  imports Complex_Main
begin

section \<open>Errors\<close>

text \<open>
  Every exception of \<^verbatim>\<open>scripts/video-veil.py\<close> is a value. \<open>Exception\<close> carries the
  message of a \<^verbatim>\<open>raise Exception(...)\<close> of the script itself; the other constructors are
  the exceptions Python, torch and OpenCV raise on the script's behalf.
\<close>

datatype error =
    Exception string
  | ValueError
  | RuntimeError
  | IndexError
  | AttributeError
  | TypeError
  | UnboundLocalError
  | CvError
  | HostError string

definition bindE :: "error + 'b \<Rightarrow> ('b \<Rightarrow> error + 'c) \<Rightarrow> error + 'c" where
  "bindE m f = (case m of Inl e \<Rightarrow> Inl e | Inr v \<Rightarrow> f v)"

section \<open>Images and pixel arrays\<close>

text \<open>
  A pixel is its three stored channel values, in storage order; an array of shape
  (height, width, 3) is a list of rows. A PIL image is its mode and its pixels, which for
  mode RGB are stored red first.
\<close>

type_synonym pixel = "nat \<times> nat \<times> nat"
type_synonym ndarray = "pixel list list"

record image =
  mode :: string
  pixels :: ndarray

text \<open>\<^verbatim>\<open>cv2.cvtColor(a, cv2.COLOR_BGR2RGB)\<close> and \<^verbatim>\<open>cv2.COLOR_RGB2BGR\<close>: both exchange the
  first and the third channel of every pixel.\<close>

definition swap_channels :: "pixel \<Rightarrow> pixel" where
  "swap_channels px = (case px of (c0, c1, c2) \<Rightarrow> (c2, c1, c0))"

definition cvtColor_BGR2RGB :: "ndarray \<Rightarrow> ndarray" where
  "cvtColor_BGR2RGB a = map (map swap_channels) a"

definition cvtColor_RGB2BGR :: "ndarray \<Rightarrow> ndarray" where
  "cvtColor_RGB2BGR a = map (map swap_channels) a"

text \<open>What channel order means: a colour is stored blue first by OpenCV's decoders (BGR)
  and red first by PIL (RGB).\<close>

datatype colour = Colour (red: nat) (green: nat) (blue: nat)

definition as_bgr :: "colour \<Rightarrow> pixel" where
  "as_bgr c = (blue c, green c, red c)"

definition as_rgb :: "colour \<Rightarrow> pixel" where
  "as_rgb c = (red c, green c, blue c)"

text \<open>\<^verbatim>\<open>Image.fromarray\<close> reads a (height, width, 3) byte array as an RGB image;
  \<^verbatim>\<open>np.array(image)\<close> gives the image's pixels back in the image's channel order.\<close>

definition Image_fromarray :: "ndarray \<Rightarrow> image" where
  "Image_fromarray a = \<lparr>mode = ''RGB'', pixels = a\<rparr>"

definition np_array :: "image \<Rightarrow> ndarray" where
  "np_array img = pixels img"

text \<open>\<^verbatim>\<open>image.convert("RGB")\<close>: the same picture in mode RGB.\<close>

definition convert_RGB :: "image \<Rightarrow> image" where
  "convert_RGB img = img\<lparr>mode := ''RGB''\<rparr>"

text \<open>\<^verbatim>\<open>a.shape\<close> of a (height, width, 3) array.\<close>

definition array_height :: "ndarray \<Rightarrow> nat" where
  "array_height a = length a"

definition array_width :: "ndarray \<Rightarrow> nat" where
  "array_width a = (case a of [] \<Rightarrow> 0 | row # _ \<Rightarrow> length row)"

section \<open>Tensors\<close>

text \<open>
  A latent batch is a list with one flattened sample per batch element; a one-dimensional
  tensor (sigmas, scalings, time steps) is a list of scalars. The scalar type is any type
  with \<open>1\<close>, \<open>+\<close>, \<open>-\<close>, \<open>*\<close> and \<open>/\<close>: no law of arithmetic is assumed of it, so what is
  proved of the routines holds of whatever arithmetic the tensor library performs.

  Torch raises when the shapes of two operands do not fit; here two tensors fit when
  their shapes are equal, and a per-batch factor fits a tensor with as many batch
  elements (the broadcast of \<^verbatim>\<open>K.utils.append_dims\<close>).
\<close>

type_synonym 'a vec = "'a list"
type_synonym 'a tensor = "'a list list"

definition shape :: "'a tensor \<Rightarrow> nat list" where
  "shape t = map length t"

definition new_ones :: "nat \<Rightarrow> ('a::one) vec" where
  "new_ones n = replicate n 1"

definition two :: "'a::{one,plus}" where
  "two = 1 + 1"

definition scalar_times_vec :: "('a::times) \<Rightarrow> 'a vec \<Rightarrow> 'a vec" where
  "scalar_times_vec s v = map (\<lambda>e. s * e) v"

definition scale_rows :: "('a::times) tensor \<Rightarrow> 'a vec \<Rightarrow> 'a tensor" where
  "scale_rows t c = map2 (\<lambda>row k. map (\<lambda>e. e * k) row) t c"

definition add_rows :: "('a::plus) tensor \<Rightarrow> 'a tensor \<Rightarrow> 'a tensor" where
  "add_rows a b = map2 (map2 (+)) a b"

definition sub_rows :: "('a::minus) tensor \<Rightarrow> 'a tensor \<Rightarrow> 'a tensor" where
  "sub_rows a b = map2 (map2 (-)) a b"

definition tensor_times_scalar :: "('a::times) tensor \<Rightarrow> 'a \<Rightarrow> 'a tensor" where
  "tensor_times_scalar t s = map (map (\<lambda>e. e * s)) t"

definition tensor_div_scalar :: "('a::inverse) tensor \<Rightarrow> 'a \<Rightarrow> 'a tensor" where
  "tensor_div_scalar t s = map (map (\<lambda>e. e / s)) t"

definition tensor_times_batch :: "('a::times) tensor \<Rightarrow> 'a vec \<Rightarrow> error + 'a tensor" where
  "tensor_times_batch t c =
     (if length t = length c then Inr (scale_rows t c) else Inl RuntimeError)"

definition tensor_add :: "('a::plus) tensor \<Rightarrow> 'a tensor \<Rightarrow> error + 'a tensor" where
  "tensor_add a b = (if shape a = shape b then Inr (add_rows a b) else Inl RuntimeError)"

definition tensor_sub :: "('a::minus) tensor \<Rightarrow> 'a tensor \<Rightarrow> error + 'a tensor" where
  "tensor_sub a b = (if shape a = shape b then Inr (sub_rows a b) else Inl RuntimeError)"

text \<open>\<^verbatim>\<open>t.chunk(2)\<close> along the batch axis: pieces of \<open>\<lceil>n / 2\<rceil>\<close> batch elements, which
  are two pieces unless the tensor has exactly one batch element.\<close>

definition chunk2 :: "'b list \<Rightarrow> 'b list list" where
  "chunk2 t =
     (let k = (length t + 1) div 2
      in if length t = 1 then [t] else [take k t, drop k t])"

text \<open>\<^verbatim>\<open>a, b = xs\<close>: a ValueError unless \<open>xs\<close> has exactly two items.\<close>

definition unpack2 :: "'b list \<Rightarrow> error + ('b \<times> 'b)" where
  "unpack2 xs = (case xs of [a, b] \<Rightarrow> Inr (a, b) | _ \<Rightarrow> Inl ValueError)"

text \<open>\<^verbatim>\<open>xs[0]\<close> and \<^verbatim>\<open>xs[-1]\<close>: an IndexError on an empty sequence.\<close>

definition first_item :: "'b list \<Rightarrow> error + 'b" where
  "first_item xs = (case xs of [] \<Rightarrow> Inl IndexError | x # _ \<Rightarrow> Inr x)"

definition last_item :: "'b list \<Rightarrow> error + 'b" where
  "last_item xs = (if xs = [] then Inl IndexError else Inr (last xs))"

section \<open>The diffusion model, its schedule provider and the host's shared state\<close>

text \<open>
  The model, the k-diffusion wrappers and the host application are not part of the
  script: they are parameters. \<open>cond_dict\<close> is the dictionary handed to
  \<^verbatim>\<open>apply_model\<close> as \<^verbatim>\<open>cond\<close>.
\<close>

record 'a cond_dict =
  c_concat :: "'a tensor list"
  c_crossattn :: "'a tensor list"

record 'a sd_model =
  parameterization :: string
  apply_model :: "'a tensor \<Rightarrow> 'a vec \<Rightarrow> 'a cond_dict \<Rightarrow> 'a tensor"
  get_learned_conditioning :: "string list \<Rightarrow> 'a tensor"

record 'a denoiser =
  get_sigmas :: "nat \<Rightarrow> 'a vec"
  get_scalings :: "'a vec \<Rightarrow> 'a vec list"
  sigma_to_t :: "'a vec \<Rightarrow> 'a vec"

record 'a k_external =
  CompVisVDenoiser :: "'a sd_model \<Rightarrow> 'a denoiser"
  CompVisDenoiser :: "'a sd_model \<Rightarrow> 'a denoiser"

text \<open>
  \<^verbatim>\<open>modules.shared\<close>: the loaded model and the progress state \<^verbatim>\<open>shared.state\<close>.
  \<open>apply_model_log\<close> is not a field of the host: it records, oldest first, the arguments
  of every call of \<^verbatim>\<open>shared.sd_model.apply_model\<close>, so that calls can be counted.
\<close>

record 'a progress =
  sampling_steps :: nat
  job_count :: nat
  job_no :: nat
  job :: string
  skipped :: bool
  interrupted :: bool
  current_latent :: "'a tensor option"

record 'a shared =
  shared_sd_model :: "'a sd_model"
  state :: "'a progress"
  apply_model_log :: "('a tensor \<times> 'a vec \<times> 'a cond_dict) list"

text \<open>The host's \<^verbatim>\<open>sd_samplers_common.store_latent\<close> keeps the latent for the live
  preview, and \<^verbatim>\<open>shared.state.nextjob()\<close> advances the job counter.\<close>

definition store_latent :: "'a tensor \<Rightarrow> 'a shared \<Rightarrow> 'a shared" where
  "store_latent x sh = sh\<lparr>state := (state sh)\<lparr>current_latent := Some x\<rparr>\<rparr>"

definition nextjob :: "'a shared \<Rightarrow> 'a shared" where
  "nextjob sh = sh\<lparr>state := (state sh)\<lparr>job_no := job_no (state sh) + 1\<rparr>\<rparr>"

section \<open>Frames and processing requests\<close>

text \<open>\<^verbatim>\<open>class VideoVeilImage\<close>.\<close>

record frame =
  frame_array :: ndarray
  frame_image :: image
  transformed_image :: "image option"
  height :: nat
  width :: nat

text \<open>
  The closure \<^verbatim>\<open>sample_extra\<close> that \<^verbatim>\<open>apply_img2img_alternate_fix\<close> stores in
  \<^verbatim>\<open>cp.sample\<close> is the tag \<open>SampleExtra\<close> with the three variables it captures: the
  frame and the two prompts describing the original video.
\<close>

datatype sample_fn = DefaultSample | SampleExtra frame string string

text \<open>The fields of the host's processing object \<^verbatim>\<open>p\<close> that the script reads or
  writes.\<close>

record 'a request =
  sd_model :: "'a sd_model"
  prompt :: string
  negative_prompt :: string
  cfg_scale :: 'a
  steps :: nat
  n_iter :: nat
  batch_size :: nat
  sampler_name :: string
  sample :: sample_fn
  init_latent :: "'a tensor"
  image_conditioning :: "'a tensor"
  init_images :: "image list"
  control_net_input_image :: "ndarray list"
  color_corrections :: "ndarray list option"
  outpath_samples :: string

text \<open>The host's result object: \<^verbatim>\<open>proc.images\<close> and \<^verbatim>\<open>proc.seed\<close>. An entry of
  \<open>images\<close> may be \<^verbatim>\<open>None\<close>: \<^verbatim>\<open>run\<close> overwrites the list with the frames' transformed
  images.\<close>

record processed =
  images :: "image option list"
  seed :: int

text \<open>A sampler of the host, as \<^verbatim>\<open>sd_samplers.create_sampler\<close> returns it.\<close>

record 'a sampler =
  model_wrap :: "'a denoiser"
  sample_img2img ::
    "'a request \<Rightarrow> 'a tensor \<Rightarrow> 'a tensor \<Rightarrow> 'a tensor \<Rightarrow> 'a tensor \<Rightarrow> 'a tensor \<Rightarrow> 'a tensor"

text \<open>
  The host application: k-diffusion's wrappers, the sampler factory, the image-to-image
  pipeline \<^verbatim>\<open>process_images\<close> (which may change the shared state, for instance when the
  user interrupts, and may raise), the colour-correction set-up and the sampling method a
  request has before the script replaces it.
\<close>

record 'a host =
  K_external :: "'a k_external"
  create_sampler :: "string \<Rightarrow> 'a sd_model \<Rightarrow> 'a sampler"
  process_images :: "'a request \<Rightarrow> 'a shared \<Rightarrow> error + (processed \<times> 'a shared)"
  setup_color_correction :: "image \<Rightarrow> ndarray"
  default_sample ::
    "'a request \<Rightarrow> 'a tensor \<Rightarrow> 'a tensor \<Rightarrow> int list \<Rightarrow> int list \<Rightarrow> 'a \<Rightarrow> string list \<Rightarrow>
     'a shared \<Rightarrow> error + ('a tensor \<times> 'a shared)"

section \<open>Noise inversion\<close>

text \<open>
  One pass of the loop body of \<^verbatim>\<open>find_noise_for_image_sigma_adjustment\<close>, for the loop
  index \<open>i\<close>, on the current latent and the shared state. The loop only calls it with
  \<open>1 \<le> i < length sigmas\<close>.
\<close>

definition inversion_step ::
  "('a::{one,plus,minus,times,inverse}) denoiser \<Rightarrow> nat \<Rightarrow> 'a vec \<Rightarrow> 'a vec \<Rightarrow> 'a request \<Rightarrow>
   'a tensor \<Rightarrow> 'a tensor \<Rightarrow> 'a \<Rightarrow> nat \<Rightarrow> 'a tensor \<times> 'a shared \<Rightarrow> error + ('a tensor \<times> 'a shared)"
where
  "inversion_step dnw skip sigmas s_in p cond uncond cfg i xs =
     (case xs of (x, sh) \<Rightarrow>
      let x_in = x @ x;
          sigma_in = scalar_times_vec (sigmas ! (i - 1)) s_in @ scalar_times_vec (sigmas ! (i - 1)) s_in;
          cond_in = uncond @ cond;
          image_conditioning = image_conditioning p @ image_conditioning p;
          cond_in = \<lparr>c_concat = [image_conditioning], c_crossattn = [cond_in]\<rparr>
      in bindE (unpack2 (drop skip (get_scalings dnw sigma_in))) (\<lambda>(c_out, c_in).
         let t = (if i = 1
                  then sigma_to_t dnw (scalar_times_vec (sigmas ! i) s_in @ scalar_times_vec (sigmas ! i) s_in)
                  else sigma_to_t dnw sigma_in)
         in bindE (tensor_times_batch x_in c_in) (\<lambda>model_input.
         let eps = apply_model (shared_sd_model sh) model_input t cond_in;
             sh = sh\<lparr>apply_model_log := apply_model_log sh @ [(model_input, t, cond_in)]\<rparr>
         in bindE (tensor_times_batch eps c_out) (\<lambda>eps_out.
            bindE (tensor_add x_in eps_out) (\<lambda>both.
            bindE (unpack2 (chunk2 both)) (\<lambda>(denoised_uncond, denoised_cond).
            bindE (tensor_sub denoised_cond denoised_uncond) (\<lambda>guided.
            bindE (tensor_add denoised_uncond (tensor_times_scalar guided cfg)) (\<lambda>denoised.
            bindE (tensor_sub x denoised) (\<lambda>residual.
            let d = (if i = 1
                     then tensor_div_scalar residual (two * sigmas ! i)
                     else tensor_div_scalar residual (sigmas ! (i - 1)));
                dt = sigmas ! i - sigmas ! (i - 1)
            in bindE (tensor_add x (tensor_times_scalar d dt)) (\<lambda>x'.
               Inr (x', store_latent x' sh)))))))))))"

text \<open>\<^verbatim>\<open>for i in trange(1, len(sigmas))\<close>, over the list of its indices.\<close>

fun inversion_loop ::
  "('a::{one,plus,minus,times,inverse}) denoiser \<Rightarrow> nat \<Rightarrow> 'a vec \<Rightarrow> 'a vec \<Rightarrow> 'a request \<Rightarrow>
   'a tensor \<Rightarrow> 'a tensor \<Rightarrow> 'a \<Rightarrow> nat list \<Rightarrow> 'a tensor \<times> 'a shared \<Rightarrow> error + ('a tensor \<times> 'a shared)"
where
  "inversion_loop dnw skip sigmas s_in p cond uncond cfg [] xs = Inr xs"
| "inversion_loop dnw skip sigmas s_in p cond uncond cfg (i # rest) xs =
     bindE (inversion_step dnw skip sigmas s_in p cond uncond cfg i xs)
       (inversion_loop dnw skip sigmas s_in p cond uncond cfg rest)"

text \<open>The wrapper and the skip offset that the routine picks from the model's
  parameterization.\<close>

definition select_denoiser :: "'a k_external \<Rightarrow> 'a sd_model \<Rightarrow> 'a denoiser \<times> nat" where
  "select_denoiser K m =
     (if parameterization m = ''v'' then (CompVisVDenoiser K m, 1) else (CompVisDenoiser K m, 0))"

text \<open>\<^verbatim>\<open>VideoVeilImage.find_noise_for_image_sigma_adjustment\<close>; the method never reads
  \<^verbatim>\<open>self\<close>. It returns the inverted noise and the shared state it leaves.\<close>

definition find_noise_for_image_sigma_adjustment ::
  "('a::{one,plus,minus,times,inverse}) k_external \<Rightarrow> 'a shared \<Rightarrow> 'a request \<Rightarrow>
   'a tensor \<Rightarrow> 'a tensor \<Rightarrow> 'a \<Rightarrow> nat \<Rightarrow> error + ('a tensor \<times> 'a shared)"
where
  "find_noise_for_image_sigma_adjustment K sh p cond uncond cfg n =
     (let x = init_latent p;
          s_in = new_ones (length x);
          (dnw, skip) = select_denoiser K (shared_sd_model sh);
          sigmas = rev (get_sigmas dnw n);
          sh = sh\<lparr>state := (state sh)\<lparr>sampling_steps := n\<rparr>\<rparr>
      in bindE (inversion_loop dnw skip sigmas s_in p cond uncond cfg [1..<length sigmas] (x, sh))
           (\<lambda>(x, sh).
              let sh = nextjob sh
              in bindE (last_item sigmas) (\<lambda>terminal. Inr (tensor_div_scalar x terminal, sh))))"

subsection \<open>The inversion as the specification words it\<close>

text \<open>
  The update of the specification, step by step: the duplicated sigma of schedule entry
  \<open>j\<close>; the time step handed to the model (from entry 1 in the first iteration, from
  entry \<open>i - 1\<close> afterwards); the guided denoised estimate; the direction \<open>d\<close>; the
  update \<open>x + d * (sigmas[i] - sigmas[i-1])\<close>; and the result after \<open>s\<close> updates,
  divided by the last sigma. These definitions have no error branch: they are what the
  routine is compared with.
\<close>

definition spec_sigma_batch :: "('a::times) vec \<Rightarrow> 'a vec \<Rightarrow> nat \<Rightarrow> 'a vec" where
  "spec_sigma_batch sigmas s_in j = scalar_times_vec (sigmas ! j) s_in @ scalar_times_vec (sigmas ! j) s_in"

definition spec_timestep :: "('a::times) denoiser \<Rightarrow> 'a vec \<Rightarrow> 'a vec \<Rightarrow> nat \<Rightarrow> 'a vec" where
  "spec_timestep dnw sigmas s_in i =
     sigma_to_t dnw (spec_sigma_batch sigmas s_in (if i = 1 then 1 else i - 1))"

definition spec_cond :: "'a request \<Rightarrow> 'a tensor \<Rightarrow> 'a tensor \<Rightarrow> 'a cond_dict" where
  "spec_cond p cond uncond =
     \<lparr>c_concat = [image_conditioning p @ image_conditioning p], c_crossattn = [uncond @ cond]\<rparr>"

definition spec_model_input :: "('a::times) denoiser \<Rightarrow> nat \<Rightarrow> 'a vec \<Rightarrow> 'a vec \<Rightarrow> nat \<Rightarrow> 'a tensor \<Rightarrow> 'a tensor" where
  "spec_model_input dnw skip sigmas s_in i x =
     scale_rows (x @ x) (get_scalings dnw (spec_sigma_batch sigmas s_in (i - 1)) ! (skip + 1))"

definition spec_denoised ::
  "('a::{plus,minus,times}) sd_model \<Rightarrow> 'a denoiser \<Rightarrow> nat \<Rightarrow> 'a vec \<Rightarrow> 'a vec \<Rightarrow> 'a request \<Rightarrow>
   'a tensor \<Rightarrow> 'a tensor \<Rightarrow> 'a \<Rightarrow> nat \<Rightarrow> 'a tensor \<Rightarrow> 'a tensor" where
  "spec_denoised m dnw skip sigmas s_in p cond uncond g i x =
     (let c_out = get_scalings dnw (spec_sigma_batch sigmas s_in (i - 1)) ! skip;
          eps = apply_model m (spec_model_input dnw skip sigmas s_in i x)
                  (spec_timestep dnw sigmas s_in i) (spec_cond p cond uncond);
          both = add_rows (x @ x) (scale_rows eps c_out);
          denoised_uncond = take (length x) both;
          denoised_cond = drop (length x) both
      in add_rows denoised_uncond (tensor_times_scalar (sub_rows denoised_cond denoised_uncond) g))"

definition spec_direction ::
  "('a::{one,plus,minus,times,inverse}) sd_model \<Rightarrow> 'a denoiser \<Rightarrow> nat \<Rightarrow> 'a vec \<Rightarrow> 'a vec \<Rightarrow> 'a request \<Rightarrow>
   'a tensor \<Rightarrow> 'a tensor \<Rightarrow> 'a \<Rightarrow> nat \<Rightarrow> 'a tensor \<Rightarrow> 'a tensor" where
  "spec_direction m dnw skip sigmas s_in p cond uncond g i x =
     (let denoised = spec_denoised m dnw skip sigmas s_in p cond uncond g i x
      in if i = 1 then tensor_div_scalar (sub_rows x denoised) (two * sigmas ! 1)
         else tensor_div_scalar (sub_rows x denoised) (sigmas ! (i - 1)))"

definition spec_update ::
  "('a::{one,plus,minus,times,inverse}) sd_model \<Rightarrow> 'a denoiser \<Rightarrow> nat \<Rightarrow> 'a vec \<Rightarrow> 'a vec \<Rightarrow> 'a request \<Rightarrow>
   'a tensor \<Rightarrow> 'a tensor \<Rightarrow> 'a \<Rightarrow> 'a tensor \<Rightarrow> nat \<Rightarrow> 'a tensor" where
  "spec_update m dnw skip sigmas s_in p cond uncond g x i =
     add_rows x (tensor_times_scalar (spec_direction m dnw skip sigmas s_in p cond uncond g i x)
                   (sigmas ! i - sigmas ! (i - 1)))"

definition spec_invert ::
  "('a::{one,plus,minus,times,inverse}) sd_model \<Rightarrow> 'a denoiser \<Rightarrow> nat \<Rightarrow> 'a vec \<Rightarrow> 'a request \<Rightarrow>
   'a tensor \<Rightarrow> 'a tensor \<Rightarrow> 'a \<Rightarrow> nat \<Rightarrow> 'a tensor" where
  "spec_invert m dnw skip sigmas p cond uncond g s =
     tensor_div_scalar
       (foldl (spec_update m dnw skip sigmas (new_ones (length (init_latent p))) p cond uncond g)
          (init_latent p) [1..<s + 1])
       (last sigmas)"

text \<open>
  The same inversion as a sequence of model calls: the arguments of the call of iteration
  \<open>i\<close> at the latent \<open>x\<close>; the update of that iteration from what the model returned
  (steps f to i of the specification); and the latent after \<open>k\<close> iterations, each of
  which applies the model once, to the arguments of its call.
\<close>

definition spec_model_call ::
  "('a::times) denoiser \<Rightarrow> nat \<Rightarrow> 'a vec \<Rightarrow> 'a vec \<Rightarrow> 'a request \<Rightarrow> 'a tensor \<Rightarrow> 'a tensor \<Rightarrow>
   nat \<Rightarrow> 'a tensor \<Rightarrow> 'a tensor \<times> 'a vec \<times> 'a cond_dict" where
  "spec_model_call dnw skip sigmas s_in p cond uncond i x =
     (spec_model_input dnw skip sigmas s_in i x, spec_timestep dnw sigmas s_in i, spec_cond p cond uncond)"

definition spec_update_from_eps ::
  "('a::{one,plus,minus,times,inverse}) denoiser \<Rightarrow> nat \<Rightarrow> 'a vec \<Rightarrow> 'a vec \<Rightarrow> 'a \<Rightarrow>
   'a tensor \<Rightarrow> nat \<Rightarrow> 'a tensor \<Rightarrow> 'a tensor" where
  "spec_update_from_eps dnw skip sigmas s_in g x i eps =
     (let c_out = get_scalings dnw (spec_sigma_batch sigmas s_in (i - 1)) ! skip;
          both = add_rows (x @ x) (scale_rows eps c_out);
          denoised_uncond = take (length x) both;
          denoised_cond = drop (length x) both;
          denoised = add_rows denoised_uncond (tensor_times_scalar (sub_rows denoised_cond denoised_uncond) g);
          d = (if i = 1 then tensor_div_scalar (sub_rows x denoised) (two * sigmas ! 1)
               else tensor_div_scalar (sub_rows x denoised) (sigmas ! (i - 1)))
      in add_rows x (tensor_times_scalar d (sigmas ! i - sigmas ! (i - 1))))"

fun spec_latent_after ::
  "('a::{one,plus,minus,times,inverse}) sd_model \<Rightarrow> 'a denoiser \<Rightarrow> nat \<Rightarrow> 'a vec \<Rightarrow> 'a vec \<Rightarrow> 'a request \<Rightarrow>
   'a tensor \<Rightarrow> 'a tensor \<Rightarrow> 'a \<Rightarrow> 'a tensor \<Rightarrow> nat \<Rightarrow> 'a tensor" where
  "spec_latent_after m dnw skip sigmas s_in p cond uncond g x0 0 = x0"
| "spec_latent_after m dnw skip sigmas s_in p cond uncond g x0 (Suc k) =
     (let x = spec_latent_after m dnw skip sigmas s_in p cond uncond g x0 k
      in case spec_model_call dnw skip sigmas s_in p cond uncond (Suc k) x of
           (model_input, t, c) \<Rightarrow>
             spec_update_from_eps dnw skip sigmas s_in g x (Suc k) (apply_model m model_input t c))"

section \<open>Strings and paths\<close>

text \<open>\<^verbatim>\<open>str(n)\<close> of a Python integer, as interpolated by an f-string.\<close>

fun str_nat :: "nat \<Rightarrow> string" where
  "str_nat n =
     (if n < 10 then [''0123456789'' ! n]
      else str_nat (n div 10) @ [''0123456789'' ! (n mod 10)])"

declare str_nat.simps [simp del]

definition str_int :: "int \<Rightarrow> string" where
  "str_int i = (if i < 0 then ''-'' @ str_nat (nat (- i)) else str_nat (nat i))"

text \<open>A path argument may be \<^verbatim>\<open>None\<close>; an f-string prints that as \<^verbatim>\<open>None\<close>.\<close>

definition str_path :: "string option \<Rightarrow> string" where
  "str_path path = (case path of None \<Rightarrow> ''None'' | Some s \<Rightarrow> s)"

definition endswith :: "string \<Rightarrow> string \<Rightarrow> bool" where
  "endswith s ext = (length ext \<le> length s \<and> drop (length s - length ext) s = ext)"

text \<open>\<^verbatim>\<open>os.path.basename\<close> and \<^verbatim>\<open>os.path.join\<close> (of two components), as \<^verbatim>\<open>posixpath\<close>
  defines them.\<close>

definition basename :: "string \<Rightarrow> string" where
  "basename path = rev (takeWhile (\<lambda>c. c \<noteq> CHR ''/'') (rev path))"

definition path_join :: "string \<Rightarrow> string \<Rightarrow> string" where
  "path_join a b =
     (if b \<noteq> [] \<and> hd b = CHR ''/'' then b
      else if a = [] \<or> last a = CHR ''/'' then a @ b
      else a @ ''/'' @ b)"

section \<open>The file system, the codecs and the clock\<close>

text \<open>
  What the script reads from outside is a parameter: whether a path exists, a
  directory's listing, the image a file opens as, and for a video path the capture
  \<^verbatim>\<open>cv2.VideoCapture\<close> gives: whether it opened, the frames \<^verbatim>\<open>read()\<close> decodes before it
  reports the end, and its \<^verbatim>\<open>CAP_PROP_FPS\<close>.

  What the script does to the outside is a list of events, oldest first. \<^verbatim>\<open>print\<close> and the
  gallery update of the user interface are left out.
\<close>

record capture =
  isOpened :: bool
  decoded :: "ndarray list"
  CAP_PROP_FPS :: real

record filesystem =
  path_exists :: "string \<Rightarrow> bool"
  listdir :: "string \<Rightarrow> string list"
  Image_open :: "string \<Rightarrow> image"
  VideoCapture :: "string \<Rightarrow> capture"

datatype io_event =
    ListDir string
  | OpenImage string
  | OpenVideo string
  | MakeDirs string
  | OpenWriter string string real "nat \<times> nat"
  | WriteFrame ndarray
  | ReleaseWriter

section \<open>Frames\<close>

text \<open>\<^verbatim>\<open>VideoVeilImage.__init__\<close>. Reading \<^verbatim>\<open>.shape\<close> of \<^verbatim>\<open>None\<close>, when neither argument is
  given, is an AttributeError.\<close>

definition VideoVeilImage :: "ndarray option \<Rightarrow> image option \<Rightarrow> error + frame" where
  "VideoVeilImage frame_array' frame_image' =
     (case frame_array' of
        Some a \<Rightarrow>
          let converted_frame_array = cvtColor_BGR2RGB a
          in Inr \<lparr>frame_array = a, frame_image = Image_fromarray converted_frame_array,
                  transformed_image = None, height = array_height a, width = array_width a\<rparr>
      | None \<Rightarrow>
          (case frame_image' of
             Some img \<Rightarrow>
               Inr \<lparr>frame_array = np_array img, frame_image = img, transformed_image = None,
                     height = array_height (np_array img), width = array_width (np_array img)\<rparr>
           | None \<Rightarrow> Inl AttributeError))"

definition set_transformed_image :: "frame \<Rightarrow> image option \<Rightarrow> frame" where
  "set_transformed_image f img = f\<lparr>transformed_image := img\<rparr>"

section \<open>The source video\<close>

text \<open>\<^verbatim>\<open>class VideoVeilSourceVideo\<close>. \<open>output_path\<close> is the attribute \<^verbatim>\<open>create_mp4\<close> sets.\<close>

record source_video =
  frames :: "frame list"
  use_images_directory :: bool
  video_path :: "string option"
  directory_upload_path :: "string option"
  test_run :: bool
  test_run_frames_count :: "nat option"
  output_video_path :: "string option"
  video_width :: nat
  video_height :: nat
  output_path :: "string option"

definition image_extensions :: "string list" where
  "image_extensions = [''.jpg'', ''.jpeg'', ''.png'']"

text \<open>The loop of \<^verbatim>\<open>_load_frames_from_folder\<close> over the image names, with the frames
  loaded so far; it gives the frames and the files it opened.\<close>

fun load_images ::
  "filesystem \<Rightarrow> string \<Rightarrow> nat option \<Rightarrow> string list \<Rightarrow> frame list \<Rightarrow> (error + frame list) \<times> io_event list"
where
  "load_images fs dir limit [] acc = (Inr acc, [])"
| "load_images fs dir limit (image_name # rest) acc =
     (if (case limit of None \<Rightarrow> False | Some k \<Rightarrow> length acc \<ge> k) then (Inr acc, [])
      else
        let image_path = path_join dir image_name;
            img = Image_open fs image_path;
            img = (if \<not> mode img = ''RGB'' then convert_RGB img else img)
        in case VideoVeilImage None (Some img) of
             Inl e \<Rightarrow> (Inl e, [OpenImage image_path])
           | Inr f \<Rightarrow>
               (case load_images fs dir limit rest (acc @ [f]) of
                  (r, ev) \<Rightarrow> (r, OpenImage image_path # ev)))"

text \<open>\<^verbatim>\<open>_load_frames_from_folder\<close>, for a directory path that is not \<^verbatim>\<open>None\<close>.\<close>

definition load_frames_from_folder ::
  "filesystem \<Rightarrow> string \<Rightarrow> nat option \<Rightarrow> (error + frame list) \<times> io_event list"
where
  "load_frames_from_folder fs dir limit =
     (let image_names =
            filter (\<lambda>file_name. list_ex (\<lambda>ext. endswith file_name ext) image_extensions) (listdir fs dir)
      in if length image_names \<le> 0
         then (Inl (Exception (''No images (*.png, *.jpg, *.jpeg) found in '' @ [CHR 0x27] @ dir @ [CHR 0x27] @ ''.'')),
               [ListDir dir])
         else (case load_images fs dir limit image_names [] of
                 (r, ev) \<Rightarrow> (r, ListDir dir # ev)))"

text \<open>The \<^verbatim>\<open>while True\<close> loop of \<^verbatim>\<open>_load_frames_from_video\<close>, over the frames the capture
  still has to decode: \<^verbatim>\<open>cap.read()\<close> gives \<^verbatim>\<open>ret = False\<close> when none is left.\<close>

fun read_frames :: "nat option \<Rightarrow> ndarray list \<Rightarrow> frame list \<Rightarrow> error + frame list" where
  "read_frames limit [] acc = Inr acc"
| "read_frames limit (a # rest) acc =
     (if (case limit of None \<Rightarrow> False | Some k \<Rightarrow> length acc \<ge> k) then Inr acc
      else bindE (VideoVeilImage (Some a) None) (\<lambda>f. read_frames limit rest (acc @ [f])))"

definition load_frames_from_video ::
  "filesystem \<Rightarrow> string \<Rightarrow> nat option \<Rightarrow> (error + frame list) \<times> io_event list"
where
  "load_frames_from_video fs path limit =
     (let cap = VideoCapture fs path
      in if \<not> isOpened cap then (Inr [], [OpenVideo path])
         else (read_frames limit (decoded cap) [], [OpenVideo path]))"

definition set_video_dimensions :: "source_video \<Rightarrow> source_video" where
  "set_video_dimensions self =
     (case frames self of
        [] \<Rightarrow> self
      | first_frame # _ \<Rightarrow> self\<lparr>video_width := width first_frame, video_height := height first_frame\<rparr>)"

text \<open>\<^verbatim>\<open>VideoVeilSourceVideo.__init__\<close>: the object, or the exception it raises, and the
  events of the construction.\<close>

definition VideoVeilSourceVideo ::
  "filesystem \<Rightarrow> bool \<Rightarrow> string option \<Rightarrow> string option \<Rightarrow> bool \<Rightarrow> nat \<Rightarrow> bool \<Rightarrow>
   (error + source_video) \<times> io_event list"
where
  "VideoVeilSourceVideo fs use_dir video_path' directory_path' test_run' count throw_errors_when_invalid =
     (let self = \<lparr>frames = [], use_images_directory = use_dir, video_path = video_path',
                   directory_upload_path = directory_path', test_run = test_run',
                   test_run_frames_count = (if \<not> test_run' then None else Some count),
                   output_video_path = None, video_width = 0, video_height = 0, output_path = None\<rparr>;
          not_found = (\<lambda>kind path.
            if throw_errors_when_invalid
            then (Inl (Exception (kind @ '' not found: '' @ [CHR 0x27] @ str_path path @ [CHR 0x27] @ ''.'')), [])
            else (Inr self, []));
          loaded = (\<lambda>r. case r of
              (Inl e, ev) \<Rightarrow> (Inl e, ev)
            | (Inr fr, ev) \<Rightarrow> (Inr (set_video_dimensions (self\<lparr>frames := fr\<rparr>)), ev))
      in if use_dir then
           (case directory_path' of
              None \<Rightarrow> not_found ''Directory'' directory_path'
            | Some dir \<Rightarrow>
                if \<not> path_exists fs dir then not_found ''Directory'' directory_path'
                else loaded (load_frames_from_folder fs dir (test_run_frames_count self)))
         else
           (case video_path' of
              None \<Rightarrow> not_found ''Video'' video_path'
            | Some path \<Rightarrow>
                if \<not> path_exists fs path then not_found ''Video'' video_path'
                else loaded (load_frames_from_video fs path (test_run_frames_count self))))"

section \<open>Video assembly\<close>

text \<open>The loop of \<^verbatim>\<open>create_mp4\<close> over \<^verbatim>\<open>self.frames\<close>. A frame without a transformed image
  makes \<^verbatim>\<open>np.array(None)\<close>, which \<^verbatim>\<open>cv2.cvtColor\<close> rejects.\<close>

fun write_frames :: "frame list \<Rightarrow> error option \<times> io_event list" where
  "write_frames [] = (None, [])"
| "write_frames (f # rest) =
     (case transformed_image f of
        None \<Rightarrow> (Some CvError, [])
      | Some img \<Rightarrow>
          (case write_frames rest of
             (e, ev) \<Rightarrow> (e, WriteFrame (cvtColor_RGB2BGR (np_array img)) # ev)))"

text \<open>\<^verbatim>\<open>VideoVeilSourceVideo.create_mp4\<close>. \<open>date_string\<close> is the clock's
  \<^verbatim>\<open>datetime.now(timezone.utc).strftime("%Y-%m-%dT%H-%M-%S")\<close>. \<^verbatim>\<open>os.path.basename(None)\<close>
  is a TypeError. A capture object is always true, so \<^verbatim>\<open>if clip:\<close> always reads the
  frame rate of a video source from the capture.\<close>

definition create_mp4 ::
  "filesystem \<Rightarrow> string \<Rightarrow> source_video \<Rightarrow> int \<Rightarrow> string \<Rightarrow> (error + source_video) \<times> io_event list"
where
  "create_mp4 fs date_string self seed' output_directory =
     (if test_run self then (Inr self, [])
      else
        (case (if \<not> use_images_directory self then
                 (case video_path self of
                    None \<Rightarrow> Inl TypeError
                  | Some vp \<Rightarrow> Inr (basename vp, CAP_PROP_FPS (VideoCapture fs vp), [OpenVideo vp]))
               else
                 (case directory_upload_path self of
                    None \<Rightarrow> Inl TypeError
                  | Some dir \<Rightarrow> Inr (basename dir @ ''.mp4'', 30, [])))
         of
           Inl e \<Rightarrow> (Inl e, [])
         | Inr (original_file_name, fps, ev) \<Rightarrow>
             let file_name = date_string @ ''-'' @ str_int seed' @ ''-'' @ original_file_name;
                 output_directory = path_join output_directory ''video-veil-output'';
                 output_path' = path_join output_directory file_name;
                 opened = ev @ [MakeDirs output_directory,
                                OpenWriter output_path' ''mp4v'' fps (video_width self, video_height self)]
             in case write_frames (frames self) of
                  (Some e, written) \<Rightarrow> (Inl e, opened @ written)
                | (None, written) \<Rightarrow>
                    (Inr (self\<lparr>output_path := Some output_path'\<rparr>), opened @ written @ [ReleaseWriter])))"

section \<open>The per-frame sampling override\<close>

text \<open>\<^verbatim>\<open>sample_extra\<close>, the closure of \<^verbatim>\<open>Script.apply_img2img_alternate_fix\<close>: \<open>cp\<close> is the
  request as it is when the host calls the closure. It gives what the delegate sampler
  returns.\<close>

definition sample_extra ::
  "('a::{one,plus,minus,times,inverse}) host \<Rightarrow> 'a request \<Rightarrow> frame \<Rightarrow> string \<Rightarrow> string \<Rightarrow>
   'a tensor \<Rightarrow> 'a tensor \<Rightarrow> int list \<Rightarrow> int list \<Rightarrow> 'a \<Rightarrow> string list \<Rightarrow>
   'a shared \<Rightarrow> error + ('a tensor \<times> 'a shared)"
where
  "sample_extra H cp fr prompt_describing_original_video neg_prompt_describing_original_video
     conditioning unconditional_conditioning seeds subseeds subseed_strength prompts sh =
     (let sh = sh\<lparr>state := (state sh)\<lparr>job_count := job_count (state sh) + 1\<rparr>\<rparr>;
          decode_cfg_scale = 1;
          cond = get_learned_conditioning (sd_model cp) [prompt_describing_original_video];
          uncond = get_learned_conditioning (sd_model cp) [neg_prompt_describing_original_video]
      in bindE (find_noise_for_image_sigma_adjustment (K_external H) sh cp cond uncond decode_cfg_scale (steps cp))
           (\<lambda>(rec_noise, sh).
              let smp = create_sampler H (sampler_name cp) (sd_model cp);
                  sigmas = get_sigmas (model_wrap smp) (steps cp)
              in bindE (first_item sigmas) (\<lambda>sigma0.
                 bindE (tensor_sub rec_noise (tensor_div_scalar (init_latent cp) sigma0)) (\<lambda>noise_dt.
                 Inr (sample_img2img smp cp (init_latent cp) noise_dt conditioning
                        unconditional_conditioning (image_conditioning cp), sh)))))"

text \<open>\<^verbatim>\<open>cp.sample(...)\<close>, as the host calls it.\<close>

definition call_sample ::
  "('a::{one,plus,minus,times,inverse}) host \<Rightarrow> 'a request \<Rightarrow>
   'a tensor \<Rightarrow> 'a tensor \<Rightarrow> int list \<Rightarrow> int list \<Rightarrow> 'a \<Rightarrow> string list \<Rightarrow>
   'a shared \<Rightarrow> error + ('a tensor \<times> 'a shared)"
where
  "call_sample H cp conditioning unconditional_conditioning seeds subseeds subseed_strength prompts sh =
     (case sample cp of
        DefaultSample \<Rightarrow>
          default_sample H cp conditioning unconditional_conditioning seeds subseeds subseed_strength prompts sh
      | SampleExtra fr pr npr \<Rightarrow>
          sample_extra H cp fr pr npr conditioning unconditional_conditioning seeds subseeds
            subseed_strength prompts sh)"

text \<open>\<^verbatim>\<open>Script.apply_img2img_alternate_fix\<close>.\<close>

definition apply_img2img_alternate_fix :: "'a request \<Rightarrow> frame \<Rightarrow> string \<Rightarrow> string \<Rightarrow> 'a request" where
  "apply_img2img_alternate_fix cp fr prompt_describing_original_video neg_prompt_describing_original_video =
     cp\<lparr>batch_size := 1, sampler_name := ''Euler'',
        sample := SampleExtra fr prompt_describing_original_video neg_prompt_describing_original_video\<rparr>"

section \<open>The run over the frames\<close>

definition color_correction_option_none :: string where
  "color_correction_option_none = ''None''"

definition color_correction_option_video :: string where
  "color_correction_option_video = ''From Source Video''"

definition color_correction_option_generated_image :: string where
  "color_correction_option_generated_image = ''From Stable Diffusion Generated Image''"

text \<open>
  The world a run acts on: the host's shared state, the events on the file system, and
  the requests handed to \<^verbatim>\<open>process_images\<close>, oldest first. A function that acts on the
  world gives its result, or the exception it raises, together with the world it leaves.
\<close>

record 'a world =
  shared :: "'a shared"
  io_log :: "io_event list"
  process_log :: "'a request list"

text \<open>The local variables of \<^verbatim>\<open>Script.run\<close> that its loop assigns; \<^verbatim>\<open>proc\<close> and \<^verbatim>\<open>cp\<close>
  are unbound until the first frame is processed.\<close>

record 'a locals =
  source_video :: source_video
  proc :: "processed option"
  cp :: "'a request option"

text \<open>The request of one frame: the loop body of \<^verbatim>\<open>Script.run\<close> from
  \<^verbatim>\<open>cp = copy.copy(p)\<close> to the colour correction. \<open>all_frames\<close> is
  \<^verbatim>\<open>source_video.frames\<close> as it is at that moment.\<close>

definition frame_request :: "'a host \<Rightarrow> 'a request \<Rightarrow> string \<Rightarrow> frame list \<Rightarrow> frame \<Rightarrow> 'a request" where
  "frame_request H p color_correction all_frames fr =
     (let cp = p;
          cp = apply_img2img_alternate_fix cp fr
                 ''This prompt should describe your input video''
                 ''This is your negative prompt describing your input video'';
          cp = cp\<lparr>control_net_input_image := [frame_array fr]\<rparr>;
          cp = cp\<lparr>init_images := [frame_image fr]\<rparr>
      in if color_correction = color_correction_option_none then cp
         else if color_correction = color_correction_option_video then
           cp\<lparr>color_corrections := Some [setup_color_correction H (frame_image fr)]\<rparr>
         else if color_correction = color_correction_option_generated_image then
           (if length all_frames > 0 then
              (case transformed_image (last all_frames) of
                 None \<Rightarrow> cp
               | Some img \<Rightarrow> cp\<lparr>color_corrections := Some [setup_color_correction H img]\<rparr>)
            else cp)
         else cp)"

text \<open>The loop body, for the frame at index \<open>i\<close>: the job label, the request,
  \<^verbatim>\<open>process_images\<close>, and the transformed image stored in the frame. \<^verbatim>\<open>cp.close()\<close>
  belongs to the host and is left out.\<close>

definition frame_body ::
  "'a host \<Rightarrow> 'a request \<Rightarrow> string \<Rightarrow> nat \<Rightarrow> 'a locals \<Rightarrow> 'a world \<Rightarrow> (error + 'a locals) \<times> 'a world"
where
  "frame_body H p color_correction i vars w =
     (let fr = frames (source_video vars) ! i;
          sh = shared w;
          sh = sh\<lparr>state := (state sh)\<lparr>job := str_nat (job_no (state sh) + 1) @ '' out of '' @
                                              str_nat (job_count (state sh))\<rparr>\<rparr>;
          request = frame_request H p color_correction (frames (source_video vars)) fr;
          w = w\<lparr>shared := sh, process_log := process_log w @ [request]\<rparr>
      in case process_images H request sh of
           Inl e \<Rightarrow> (Inl e, w)
         | Inr (result, sh') \<Rightarrow>
             (case first_item (images result) of
                Inl e \<Rightarrow> (Inl e, w\<lparr>shared := sh'\<rparr>)
              | Inr img \<Rightarrow>
                  (Inr (vars\<lparr>source_video :=
                               (source_video vars)\<lparr>frames :=
                                  (frames (source_video vars))[i := set_transformed_image fr img]\<rparr>,
                             proc := Some result, cp := Some request\<rparr>),
                   w\<lparr>shared := sh'\<rparr>)))"

text \<open>\<^verbatim>\<open>for i, frame in enumerate(source_video.frames)\<close>, over the list of its indices;
  \<^verbatim>\<open>break\<close> ends the loop with the variables as they are.\<close>

fun frame_loop ::
  "'a host \<Rightarrow> 'a request \<Rightarrow> string \<Rightarrow> nat list \<Rightarrow> 'a locals \<Rightarrow> 'a world \<Rightarrow> (error + 'a locals) \<times> 'a world"
where
  "frame_loop H p color_correction [] vars w = (Inr vars, w)"
| "frame_loop H p color_correction (i # rest) vars w =
     (let w = (if skipped (state (shared w))
               then w\<lparr>shared := (shared w)\<lparr>state := (state (shared w))\<lparr>skipped := False\<rparr>\<rparr>\<rparr>
               else w)
      in if interrupted (state (shared w)) then (Inr vars, w)
         else (case frame_body H p color_correction i vars w of
                 (Inl e, w') \<Rightarrow> (Inl e, w')
               | (Inr vars', w') \<Rightarrow> frame_loop H p color_correction rest vars' w'))"

text \<open>\<^verbatim>\<open>Script.run\<close>: what \<^verbatim>\<open>return proc\<close> gives, or the exception the method raises, and
  the world it leaves. Reading \<^verbatim>\<open>proc\<close> or \<^verbatim>\<open>cp\<close> where no statement has assigned it is an
  UnboundLocalError: after a loop that broke before its first frame, and at \<^verbatim>\<open>return proc\<close>
  when the source has no frame, since the block under \<^verbatim>\<open>if len(source_video.frames) > 0\<close>
  is then skipped.\<close>

definition run ::
  "'a host \<Rightarrow> filesystem \<Rightarrow> string \<Rightarrow> 'a request \<Rightarrow> bool \<Rightarrow> string option \<Rightarrow> string option \<Rightarrow>
   string \<Rightarrow> bool \<Rightarrow> nat \<Rightarrow> 'a world \<Rightarrow> (error + processed) \<times> 'a world"
where
  "run H fs date_string p use_dir video_path' directory_path' color_correction test_run' count w =
     (let no_video_path = (video_path' = None \<or> video_path' = Some []);
          no_directory_upload_path = (directory_path' = None \<or> directory_path' = Some []);
          enabled = (\<not> no_video_path \<or> \<not> no_directory_upload_path)
      in if enabled then
           (case VideoVeilSourceVideo fs use_dir video_path' directory_path' test_run' count True of
              (Inl e, ev) \<Rightarrow> (Inl e, w\<lparr>io_log := io_log w @ ev\<rparr>)
            | (Inr sv, ev) \<Rightarrow>
                let w = w\<lparr>io_log := io_log w @ ev\<rparr>
                in if length (frames sv) > 0 then
                     let w = w\<lparr>shared := (shared w)\<lparr>state := (state (shared w))
                                  \<lparr>job_count := length (frames sv) * n_iter p, job_no := 0\<rparr>\<rparr>\<rparr>
                     in (case frame_loop H p color_correction [0..<length (frames sv)]
                                \<lparr>source_video = sv, proc = None, cp = None\<rparr> w of
                           (Inl e, w) \<Rightarrow> (Inl e, w)
                         | (Inr vars, w) \<Rightarrow>
                             (case (proc vars, cp vars) of
                                (Some result, Some request) \<Rightarrow>
                                  let result = result\<lparr>images :=
                                        map transformed_image (frames (source_video vars))\<rparr>
                                  in (case create_mp4 fs date_string (source_video vars) (seed result)
                                             (outpath_samples request) of
                                        (Inl e, ev) \<Rightarrow> (Inl e, w\<lparr>io_log := io_log w @ ev\<rparr>)
                                      | (Inr sv', ev) \<Rightarrow> (Inr result, w\<lparr>io_log := io_log w @ ev\<rparr>))
                              | _ \<Rightarrow> (Inl UnboundLocalError, w)))
                   else (Inl UnboundLocalError, w))
         else
           (case process_images H p (shared w) of
              Inl e \<Rightarrow> (Inl e, w\<lparr>process_log := process_log w @ [p]\<rparr>)
            | Inr (result, sh') \<Rightarrow> (Inr result, w\<lparr>shared := sh', process_log := process_log w @ [p]\<rparr>)))"

section \<open>Example instances\<close>

text \<open>
  A small schedule provider, model, host and file system on which the definitions can be
  evaluated. The schedule of \<open>n\<close> steps is \<open>n, \<dots>, 1, 0\<close>; the wrapper of a
  velocity-predicting model gives three scalings, the other one two; the model adds to
  every entry of a batch element that element's position in the batch.
\<close>

definition demo_denoiser :: "nat \<Rightarrow> real denoiser" where
  "demo_denoiser skip =
     \<lparr>get_sigmas = (\<lambda>n. map real (rev [0..<n + 1])),
      get_scalings = (\<lambda>sg. replicate skip sg @ [map (\<lambda>s. s + 1) sg, map (\<lambda>s. 2) sg]),
      sigma_to_t = (\<lambda>sg. map (\<lambda>s. 10 * s) sg)\<rparr>"

definition demo_K :: "real k_external" where
  "demo_K = \<lparr>CompVisVDenoiser = (\<lambda>m. demo_denoiser 1), CompVisDenoiser = (\<lambda>m. demo_denoiser 0)\<rparr>"

definition demo_model :: "string \<Rightarrow> real sd_model" where
  "demo_model par =
     \<lparr>parameterization = par,
      apply_model = (\<lambda>x t c. map (\<lambda>(j, row). map (\<lambda>e. e + real j) row) (enumerate 0 x)),
      get_learned_conditioning = (\<lambda>ps. [[real (length (concat ps))]])\<rparr>"

definition demo_progress :: "real progress" where
  "demo_progress = \<lparr>sampling_steps = 0, job_count = 0, job_no = 0, job = [], skipped = False,
                     interrupted = False, current_latent = None\<rparr>"

definition demo_shared :: "string \<Rightarrow> real shared" where
  "demo_shared par = \<lparr>shared_sd_model = demo_model par, state = demo_progress, apply_model_log = []\<rparr>"

definition demo_request :: "real request" where
  "demo_request =
     \<lparr>sd_model = demo_model ''eps'', prompt = ''a cat'', negative_prompt = ''blurry'', cfg_scale = 7,
      steps = 2, n_iter = 1, batch_size = 4, sampler_name = ''DDIM'', sample = DefaultSample,
      init_latent = [[3, 5]], image_conditioning = [[0]], init_images = [],
      control_net_input_image = [], color_corrections = None, outpath_samples = ''out''\<rparr>"

text \<open>A file system with a two-frame video \<^verbatim>\<open>in/clip.mp4\<close>, a file \<^verbatim>\<open>in/broken.mp4\<close>
  that no decoder opens, a directory \<^verbatim>\<open>in/stills\<close> with two images and a text file, and a
  directory \<^verbatim>\<open>in/empty\<close> without images.\<close>

definition demo_fs :: filesystem where
  "demo_fs =
     \<lparr>path_exists = (\<lambda>path. path \<in> set [''in/clip.mp4'', ''in/broken.mp4'', ''in/stills'', ''in/empty'']),
      listdir = (\<lambda>dir. if dir = ''in/stills'' then [''a.png'', ''notes.txt'', ''b.jpg'']
                        else if dir = ''in/empty'' then [''notes.txt''] else []),
      Image_open = (\<lambda>path. if path = ''in/stills/a.png''
                             then \<lparr>mode = ''RGB'', pixels = [[(1, 2, 3)]]\<rparr>
                             else \<lparr>mode = ''L'', pixels = [[(7, 7, 7)]]\<rparr>),
      VideoCapture = (\<lambda>path. if path = ''in/clip.mp4''
                               then \<lparr>isOpened = True,
                                     decoded = [[[(10, 20, 30)]], [[(40, 50, 60)]]],
                                     CAP_PROP_FPS = 24\<rparr>
                               else \<lparr>isOpened = False, decoded = [], CAP_PROP_FPS = 0\<rparr>)\<rparr>"



text \<open>A host whose pipeline gives back the request's first input image; with
  \<open>interrupting\<close> the user interrupts while a frame is in the pipeline, so that the flag is
  up when that frame is done.\<close>

definition demo_host :: "bool \<Rightarrow> real host" where
  "demo_host interrupting =
     \<lparr>K_external = demo_K,
      create_sampler = (\<lambda>name m. \<lparr>model_wrap = demo_denoiser 0,
                                   sample_img2img = (\<lambda>p x noise c uc ic. noise)\<rparr>),
      process_images = (\<lambda>request sh.
         Inr (\<lparr>images = map Some (init_images request), seed = 42\<rparr>,
              if interrupting then sh\<lparr>state := (state sh)\<lparr>interrupted := True\<rparr>\<rparr> else sh)),
      setup_color_correction = pixels,
      default_sample = (\<lambda>request c uc seeds subseeds strength prompts sh. Inr (init_latent request, sh))\<rparr>"

definition demo_world :: "real world" where
  "demo_world = \<lparr>shared = demo_shared ''eps'', io_log = [], process_log = []\<rparr>"

section \<open>Noise inversion: what the routine computes\<close>

lemma bindE_Inr: "bindE (Inr v) f = f v"
  by (simp add: bindE_def)

lemma shape_append: "shape (a @ b) = shape a @ shape b"
  by (simp add: shape_def)

lemma shape_length: "shape a = shape b \<Longrightarrow> length a = length b"
  by (metis length_map shape_def)

lemma length_shape: "length (shape a) = length a"
  by (simp add: shape_def)

lemma shape_scale_rows: "length t = length c \<Longrightarrow> shape (scale_rows t c) = shape t"
  by (induction t c rule: list_induct2) (simp_all add: shape_def scale_rows_def)

lemma shape_add_rows: "shape a = shape b \<Longrightarrow> shape (add_rows a b) = shape a"
proof -
  assume h: "shape a = shape b"
  then have "length a = length b" by (rule shape_length)
  then show ?thesis using h
    by (induction a b rule: list_induct2) (simp_all add: shape_def add_rows_def)
qed

lemma shape_sub_rows: "shape a = shape b \<Longrightarrow> shape (sub_rows a b) = shape a"
proof -
  assume h: "shape a = shape b"
  then have "length a = length b" by (rule shape_length)
  then show ?thesis using h
    by (induction a b rule: list_induct2) (simp_all add: shape_def sub_rows_def)
qed

lemma shape_times_scalar: "shape (tensor_times_scalar t s) = shape t"
  by (simp add: shape_def tensor_times_scalar_def comp_def)

lemma shape_div_scalar: "shape (tensor_div_scalar t s) = shape t"
  by (simp add: shape_def tensor_div_scalar_def comp_def)

lemma shape_take: "shape (take n t) = take n (shape t)"
  by (simp add: shape_def take_map)

lemma shape_drop: "shape (drop n t) = drop n (shape t)"
  by (simp add: shape_def drop_map)

lemma chunk2_double:
  "length t = 2 * n \<Longrightarrow> chunk2 t = [take n t, drop n t]"
  by (simp add: chunk2_def Let_def)

lemma unpack2_pair: "unpack2 [a, b] = Inr (a, b)"
  by (simp add: unpack2_def)

lemma unpack2_drop:
  "length xs = k + 2 \<Longrightarrow> unpack2 (drop k xs) = Inr (xs ! k, xs ! (k + 1))"
proof -
  assume h: "length xs = k + 2"
  then have "drop k xs = [xs ! k, xs ! (k + 1)]"
    by (metis Cons_nth_drop_Suc Suc_eq_plus1 add_2_eq_Suc' drop_all less_add_Suc1 order_refl
        less_Suc_eq)
  then show ?thesis by (simp add: unpack2_def)
qed


lemma inversion_step_refines:
  fixes m :: "('a::{one,plus,minus,times,inverse}) sd_model"
  assumes scal: "\<And>sg. length (get_scalings dnw sg) = skip + 2
             \<and> length (get_scalings dnw sg ! skip) = length sg
             \<and> length (get_scalings dnw sg ! (skip + 1)) = length sg"
    and model: "\<And>y t c. shape (apply_model m y t c) = shape y"
    and m: "shared_sd_model sh = m"
    and len: "length s_in = length x"
  shows "inversion_step dnw skip sigmas s_in p cond uncond g i (x, sh) =
           Inr (spec_update m dnw skip sigmas s_in p cond uncond g x i,
                store_latent (spec_update m dnw skip sigmas s_in p cond uncond g x i)
                  (sh\<lparr>apply_model_log := apply_model_log sh @
                       [(spec_model_input dnw skip sigmas s_in i x,
                         spec_timestep dnw sigmas s_in i, spec_cond p cond uncond)]\<rparr>))
         \<and> shape (spec_update m dnw skip sigmas s_in p cond uncond g x i) = shape x"
proof -
  define sg where "sg = spec_sigma_batch sigmas s_in (i - 1)"
  define c_out where "c_out = get_scalings dnw sg ! skip"
  define c_in where "c_in = get_scalings dnw sg ! (skip + 1)"
  define inp where "inp = spec_model_input dnw skip sigmas s_in i x"
  define t where "t = spec_timestep dnw sigmas s_in i"
  define cd where "cd = spec_cond p cond uncond"
  define eps where "eps = apply_model m inp t cd"
  define both where "both = add_rows (x @ x) (scale_rows eps c_out)"
  define du where "du = take (length x) both"
  define dc where "dc = drop (length x) both"
  define den where "den = add_rows du (tensor_times_scalar (sub_rows dc du) g)"
  define d where "d = spec_direction m dnw skip sigmas s_in p cond uncond g i x"
  have lsg: "length sg = length (x @ x)"
    by (simp add: sg_def spec_sigma_batch_def scalar_times_vec_def len)
  have unp: "unpack2 (drop skip (get_scalings dnw sg)) = Inr (c_out, c_in)"
    unfolding c_out_def c_in_def using scal [of sg] by (simp add: unpack2_drop)
  have lcin: "length c_in = length (x @ x)" and lcout: "length c_out = length (x @ x)"
    using scal [of sg] lsg by (simp_all add: c_in_def c_out_def)
  have inp_eq: "inp = scale_rows (x @ x) c_in"
    by (simp add: inp_def spec_model_input_def c_in_def sg_def)
  have sh_inp: "shape inp = shape (x @ x)"
    unfolding inp_eq using lcin by (simp add: shape_scale_rows)
  have sh_eps: "shape eps = shape (x @ x)"
    unfolding eps_def using model sh_inp by simp
  have l_eps: "length eps = length c_out"
    using shape_length [OF sh_eps] lcout by simp
  have sh_eo: "shape (scale_rows eps c_out) = shape (x @ x)"
    using shape_scale_rows [OF l_eps] sh_eps by simp
  have sh_both: "shape both = shape (x @ x)"
    unfolding both_def using shape_add_rows [of "x @ x" "scale_rows eps c_out"] sh_eo by simp
  have l_both: "length both = 2 * length x"
    using shape_length [OF sh_both] by simp
  have sh_du: "shape du = shape x"
    unfolding du_def by (simp add: shape_take sh_both shape_append length_shape)
  have sh_dc: "shape dc = shape x"
    unfolding dc_def by (simp add: shape_drop sh_both shape_append length_shape)
  have sh_sub: "shape (sub_rows dc du) = shape x"
    using shape_sub_rows [of dc du] sh_du sh_dc by simp
  have sh_den: "shape den = shape x"
    unfolding den_def
    using shape_add_rows [of du "tensor_times_scalar (sub_rows dc du) g"] sh_du sh_sub
    by (simp add: shape_times_scalar)
  have den_eq: "den = spec_denoised m dnw skip sigmas s_in p cond uncond g i x"
    by (simp add: den_def du_def dc_def both_def eps_def inp_def t_def cd_def c_out_def sg_def
        spec_denoised_def Let_def)
  have sh_res: "shape (sub_rows x den) = shape x"
    using shape_sub_rows [of x den] sh_den by simp
  have d_eq: "d = (if i = 1 then tensor_div_scalar (sub_rows x den) (two * sigmas ! 1)
                   else tensor_div_scalar (sub_rows x den) (sigmas ! (i - 1)))"
    by (simp add: d_def spec_direction_def Let_def den_eq)
  have d_src: "(if i = 1 then tensor_div_scalar (sub_rows x den) (two * sigmas ! i)
                 else tensor_div_scalar (sub_rows x den) (sigmas ! (i - 1))) = d"
    by (simp add: d_eq)
  have sh_d: "shape d = shape x"
    unfolding d_eq using sh_res by (simp add: shape_div_scalar)
  have upd: "spec_update m dnw skip sigmas s_in p cond uncond g x i =
               add_rows x (tensor_times_scalar d (sigmas ! i - sigmas ! (i - 1)))"
    by (simp add: spec_update_def d_def)
  have sh_upd: "shape (spec_update m dnw skip sigmas s_in p cond uncond g x i) = shape x"
    unfolding upd
    using shape_add_rows [of x "tensor_times_scalar d (sigmas ! i - sigmas ! (i - 1))"] sh_d
    by (simp add: shape_times_scalar)
  have t_eq: "t = (if i = 1
                   then sigma_to_t dnw (scalar_times_vec (sigmas ! i) s_in @ scalar_times_vec (sigmas ! i) s_in)
                   else sigma_to_t dnw sg)"
    by (simp add: t_def spec_timestep_def sg_def spec_sigma_batch_def)
  have sg_eq: "scalar_times_vec (sigmas ! (i - 1)) s_in @ scalar_times_vec (sigmas ! (i - 1)) s_in = sg"
    by (simp add: sg_def spec_sigma_batch_def)
  have s1: "tensor_times_batch (x @ x) c_in = Inr inp"
    using lcin by (simp add: tensor_times_batch_def inp_eq)
  have s2: "tensor_times_batch eps c_out = Inr (scale_rows eps c_out)"
    using l_eps by (simp add: tensor_times_batch_def)
  have s3: "tensor_add (x @ x) (scale_rows eps c_out) = Inr both"
    using sh_eo by (simp add: tensor_add_def both_def)
  have s4: "unpack2 (chunk2 both) = Inr (du, dc)"
    using chunk2_double [OF l_both] by (simp add: unpack2_pair du_def dc_def)
  have s5: "tensor_sub dc du = Inr (sub_rows dc du)"
    using sh_du sh_dc by (simp add: tensor_sub_def)
  have s6: "tensor_add du (tensor_times_scalar (sub_rows dc du) g) = Inr den"
    using sh_du sh_sub by (simp add: tensor_add_def den_def shape_times_scalar)
  have s7: "tensor_sub x den = Inr (sub_rows x den)"
    using sh_den by (simp add: tensor_sub_def)
  have s8: "tensor_add x (tensor_times_scalar d (sigmas ! i - sigmas ! (i - 1))) =
              Inr (spec_update m dnw skip sigmas s_in p cond uncond g x i)"
    using sh_d by (simp add: tensor_add_def upd shape_times_scalar)
  have "inversion_step dnw skip sigmas s_in p cond uncond g i (x, sh) =
           Inr (spec_update m dnw skip sigmas s_in p cond uncond g x i,
                store_latent (spec_update m dnw skip sigmas s_in p cond uncond g x i)
                  (sh\<lparr>apply_model_log := apply_model_log sh @ [(inp, t, cd)]\<rparr>))"
    unfolding inversion_step_def
    apply (simp only: prod.case Let_def sg_eq unp bindE_Inr s1 m)
    apply (simp only: t_eq [symmetric] spec_cond_def [symmetric] cd_def [symmetric] eps_def [symmetric]
        s2 bindE_Inr s3 s4 prod.case s5 s6 s7)
    apply (simp only: d_src s8 bindE_Inr)
    done
  then show ?thesis using sh_upd by (simp add: inp_def t_def cd_def)
qed


lemma inversion_loop_refines:
  fixes m :: "('a::{one,plus,minus,times,inverse}) sd_model"
  assumes scal: "\<And>sg. length (get_scalings dnw sg) = skip + 2
             \<and> length (get_scalings dnw sg ! skip) = length sg
             \<and> length (get_scalings dnw sg ! (skip + 1)) = length sg"
    and model: "\<And>y t c. shape (apply_model m y t c) = shape y"
  shows "shared_sd_model sh = m \<Longrightarrow> length s_in = length x \<Longrightarrow>
         \<exists>sh'. inversion_loop dnw skip sigmas s_in p cond uncond g js (x, sh) =
                 Inr (foldl (spec_update m dnw skip sigmas s_in p cond uncond g) x js, sh')
             \<and> shared_sd_model sh' = m
             \<and> map (fst \<circ> snd) (apply_model_log sh') =
                 map (fst \<circ> snd) (apply_model_log sh) @ map (spec_timestep dnw sigmas s_in) js
             \<and> job_no (state sh') = job_no (state sh)"
proof (induction js arbitrary: x sh)
  case Nil
  then show ?case by simp
next
  case (Cons i js)
  let ?x = "spec_update m dnw skip sigmas s_in p cond uncond g x i"
  let ?sh = "store_latent ?x
                  (sh\<lparr>apply_model_log := apply_model_log sh @
                       [(spec_model_input dnw skip sigmas s_in i x,
                         spec_timestep dnw sigmas s_in i, spec_cond p cond uncond)]\<rparr>)"
  from inversion_step_refines [OF scal model Cons.prems(1) Cons.prems(2)]
  have step: "inversion_step dnw skip sigmas s_in p cond uncond g i (x, sh) = Inr (?x, ?sh)"
    and shp: "shape ?x = shape x"
    by blast+
  have m': "shared_sd_model ?sh = m"
    using Cons.prems(1) by (simp add: store_latent_def)
  have len': "length s_in = length ?x"
    using Cons.prems(2) shape_length [OF shp] by simp
  from Cons.IH [OF m' len'] obtain sh' where
    loop: "inversion_loop dnw skip sigmas s_in p cond uncond g js (?x, ?sh) =
             Inr (foldl (spec_update m dnw skip sigmas s_in p cond uncond g) ?x js, sh')"
    and m'': "shared_sd_model sh' = m"
    and log: "map (fst \<circ> snd) (apply_model_log sh') =
                map (fst \<circ> snd) (apply_model_log ?sh) @ map (spec_timestep dnw sigmas s_in) js"
    and jn: "job_no (state sh') = job_no (state ?sh)"
    by blast
  have "inversion_loop dnw skip sigmas s_in p cond uncond g (i # js) (x, sh) =
          Inr (foldl (spec_update m dnw skip sigmas s_in p cond uncond g) x (i # js), sh')"
    by (simp add: step bindE_Inr loop)
  moreover have "map (fst \<circ> snd) (apply_model_log sh') =
      map (fst \<circ> snd) (apply_model_log sh) @ map (spec_timestep dnw sigmas s_in) (i # js)"
    by (simp add: log store_latent_def)
  moreover have "job_no (state sh') = job_no (state sh)"
    by (simp add: jn store_latent_def)
  ultimately show ?case using m'' by blast
qed


lemma find_noise_refines:
  fixes K :: "('a::{one,plus,minus,times,inverse}) k_external"
  assumes sel: "select_denoiser K (shared_sd_model sh) = (dnw, skip)"
    and sched: "length (get_sigmas dnw s) = s + 1"
    and scal: "\<And>sg. length (get_scalings dnw sg) = skip + 2
             \<and> length (get_scalings dnw sg ! skip) = length sg
             \<and> length (get_scalings dnw sg ! (skip + 1)) = length sg"
    and model: "\<And>y t c. shape (apply_model (shared_sd_model sh) y t c) = shape y"
  shows "\<exists>sh'. find_noise_for_image_sigma_adjustment K sh p cond uncond g s =
                 Inr (spec_invert (shared_sd_model sh) dnw skip (rev (get_sigmas dnw s)) p cond uncond g s, sh')
             \<and> map (fst \<circ> snd) (apply_model_log sh') =
                 map (fst \<circ> snd) (apply_model_log sh) @
                 map (spec_timestep dnw (rev (get_sigmas dnw s)) (new_ones (length (init_latent p)))) [1..<s + 1]
             \<and> job_no (state sh') = job_no (state sh) + 1"
proof -
  let ?m = "shared_sd_model sh"
  let ?sigmas = "rev (get_sigmas dnw s)"
  let ?s_in = "new_ones (length (init_latent p)) :: 'a vec"
  let ?sh0 = "sh\<lparr>state := (state sh)\<lparr>sampling_steps := s\<rparr>\<rparr>"
  have m0: "shared_sd_model ?sh0 = ?m" by simp
  have l0: "length ?s_in = length (init_latent p)" by (simp add: new_ones_def)
  have idx: "[1..<length ?sigmas] = [1..<s + 1]" using sched by simp
  from inversion_loop_refines [OF scal model m0 l0, of ?sigmas p cond uncond g "[1..<s + 1]"]
  obtain sh1 where
    loop: "inversion_loop dnw skip ?sigmas ?s_in p cond uncond g [1..<s + 1] (init_latent p, ?sh0) =
             Inr (foldl (spec_update ?m dnw skip ?sigmas ?s_in p cond uncond g) (init_latent p) [1..<s + 1], sh1)"
    and log: "map (fst \<circ> snd) (apply_model_log sh1) =
                map (fst \<circ> snd) (apply_model_log ?sh0) @ map (spec_timestep dnw ?sigmas ?s_in) [1..<s + 1]"
    and jn: "job_no (state sh1) = job_no (state ?sh0)"
    by blast
  have ne: "?sigmas \<noteq> []" using sched by auto
  have "find_noise_for_image_sigma_adjustment K sh p cond uncond g s =
          Inr (spec_invert ?m dnw skip ?sigmas p cond uncond g s, nextjob sh1)"
    unfolding find_noise_for_image_sigma_adjustment_def
    apply (simp only: Let_def sel prod.case idx loop bindE_Inr)
    apply (simp add: last_item_def ne bindE_Inr spec_invert_def del: rev_is_Nil_conv upt_Suc)
    done
  moreover have "map (fst \<circ> snd) (apply_model_log (nextjob sh1)) =
      map (fst \<circ> snd) (apply_model_log sh) @ map (spec_timestep dnw ?sigmas ?s_in) [1..<s + 1]"
    using log by (simp add: nextjob_def)
  moreover have "job_no (state (nextjob sh1)) = job_no (state sh) + 1"
    using jn by (simp add: nextjob_def)
  ultimately show ?thesis by blast
qed

text \<open>
  Claim C1. With a schedule of \<open>s + 1\<close> sigmas, scalings that fit the batch and a model that
  keeps the shape of its input, the routine returns, and what it returns is the initial
  latent after the updates \<open>x := x + d * (sigmas[i] - sigmas[i-1])\<close> for \<open>i = 1, \<dots>, s\<close>,
  divided by the last sigma: the direction is \<open>(x - denoised) / (2 * sigmas[1])\<close> in the
  first iteration and \<open>(x - denoised) / sigmas[i-1]\<close> afterwards, and the time steps handed
  to the model, in order, are those of \<open>sigmas[1]\<close> for \<open>i = 1\<close> and of \<open>sigmas[i-1]\<close>
  afterwards.
\<close>

theorem inversion_follows_spec_update:
  fixes K :: "('a::{one,plus,minus,times,inverse}) k_external"
  assumes "select_denoiser K (shared_sd_model sh) = (dnw, skip)"
    and "length (get_sigmas dnw s) = s + 1"
    and "\<And>sg. length (get_scalings dnw sg) = skip + 2
             \<and> length (get_scalings dnw sg ! skip) = length sg
             \<and> length (get_scalings dnw sg ! (skip + 1)) = length sg"
    and "\<And>y t c. shape (apply_model (shared_sd_model sh) y t c) = shape y"
  shows "\<exists>sh'. find_noise_for_image_sigma_adjustment K sh p cond uncond g s =
                 Inr (spec_invert (shared_sd_model sh) dnw skip (rev (get_sigmas dnw s)) p cond uncond g s, sh')
             \<and> map (fst \<circ> snd) (apply_model_log sh') =
                 map (fst \<circ> snd) (apply_model_log sh) @
                 map (spec_timestep dnw (rev (get_sigmas dnw s)) (new_ones (length (init_latent p)))) [1..<s + 1]"
  using find_noise_refines [OF assms, of p cond uncond g] by blast

lemma demo_select_v: "select_denoiser demo_K (shared_sd_model (demo_shared ''v'')) = (demo_denoiser 1, 1)"
  by (simp add: select_denoiser_def demo_K_def demo_shared_def demo_model_def)

lemma demo_select_eps: "select_denoiser demo_K (shared_sd_model (demo_shared ''eps'')) = (demo_denoiser 0, 0)"
  by (simp add: select_denoiser_def demo_K_def demo_shared_def demo_model_def)

lemma demo_schedule: "length (get_sigmas (demo_denoiser k) s) = s + 1"
  by (simp add: demo_denoiser_def)

lemma demo_scalings:
  "length (get_scalings (demo_denoiser k) sg) = k + 2
   \<and> length (get_scalings (demo_denoiser k) sg ! k) = length sg
   \<and> length (get_scalings (demo_denoiser k) sg ! (k + 1)) = length sg"
  by (simp add: demo_denoiser_def nth_append)

lemma demo_model_shape: "shape (apply_model (shared_sd_model (demo_shared par)) y t c) = shape y"
proof -
  have "map length (map snd (enumerate 0 y)) = map length y"
    by simp
  then have "map (\<lambda>x. length (snd x)) (enumerate 0 y) = map length y"
    by (simp only: map_map comp_def)
  then show ?thesis
    by (simp add: demo_shared_def demo_model_def shape_def comp_def case_prod_unfold)
qed

lemma demo_spec_invert:
  "spec_invert (shared_sd_model (demo_shared ''v'')) (demo_denoiser 1) 1 (rev (get_sigmas (demo_denoiser 1) 3))
     demo_request [[1]] [[2]] 3 3 = [[- (1 / 2), - (1 / 2)]]"
  by (simp add: spec_invert_def spec_update_def spec_direction_def spec_denoised_def spec_model_input_def
      spec_timestep_def spec_cond_def spec_sigma_batch_def demo_shared_def demo_model_def demo_denoiser_def
      demo_request_def new_ones_def scalar_times_vec_def scale_rows_def add_rows_def sub_rows_def
      tensor_times_scalar_def tensor_div_scalar_def two_def Let_def upt_rec enumerate_eq_zip)


lemma demo_timesteps:
  "map (spec_timestep (demo_denoiser 1) (rev (get_sigmas (demo_denoiser 1) 3))
          (new_ones (length (init_latent demo_request)))) [1..<3 + 1] = [[10, 10], [10, 10], [20, 20]]"
  by (simp add: spec_timestep_def spec_sigma_batch_def demo_denoiser_def demo_request_def new_ones_def
      scalar_times_vec_def upt_rec)

theorem inversion_follows_spec_update_witness:
  "\<exists>sh'. find_noise_for_image_sigma_adjustment demo_K (demo_shared ''v'') demo_request [[1]] [[2]] 3 3 =
            Inr ([[- (1 / 2), - (1 / 2)]], sh')
        \<and> map (fst \<circ> snd) (apply_model_log sh') = [[10, 10], [10, 10], [20, 20]]"
proof -
  from inversion_follows_spec_update
         [OF demo_select_v demo_schedule demo_scalings demo_model_shape,
            where s = 3 and p = demo_request and cond = "[[1]]" and uncond = "[[2]]" and g = 3]
  obtain sh' where
    "find_noise_for_image_sigma_adjustment demo_K (demo_shared ''v'') demo_request [[1]] [[2]] 3 3 =
       Inr (spec_invert (shared_sd_model (demo_shared ''v'')) (demo_denoiser 1) 1
              (rev (get_sigmas (demo_denoiser 1) 3)) demo_request [[1]] [[2]] 3 3, sh')"
    and "map (fst \<circ> snd) (apply_model_log sh') =
           map (fst \<circ> snd) (apply_model_log (demo_shared ''v'')) @
           map (spec_timestep (demo_denoiser 1) (rev (get_sigmas (demo_denoiser 1) 3))
                  (new_ones (length (init_latent demo_request)))) [1..<3 + 1]"
    by blast
  then have "find_noise_for_image_sigma_adjustment demo_K (demo_shared ''v'') demo_request [[1]] [[2]] 3 3 =
            Inr ([[- (1 / 2), - (1 / 2)]], sh')
        \<and> map (fst \<circ> snd) (apply_model_log sh') = [[10, 10], [10, 10], [20, 20]]"
    by (simp only: demo_spec_invert demo_timesteps) (simp add: demo_shared_def)
  then show ?thesis by (rule exI)
qed

lemma inversion_loop_append:
  "inversion_loop dnw skip sigmas s_in p cond uncond g (js @ ks) xs =
   bindE (inversion_loop dnw skip sigmas s_in p cond uncond g js xs)
     (inversion_loop dnw skip sigmas s_in p cond uncond g ks)"
proof (induction js arbitrary: xs)
  case Nil
  then show ?case by (simp add: bindE_def)
next
  case (Cons i js)
  then show ?case
    by (cases "inversion_step dnw skip sigmas s_in p cond uncond g i xs") (simp_all add: bindE_def)
qed

lemma spec_update_applies_model:
  "spec_update m dnw skip sigmas s_in p cond uncond g x i =
     (case spec_model_call dnw skip sigmas s_in p cond uncond i x of
        (model_input, t, c) \<Rightarrow>
          spec_update_from_eps dnw skip sigmas s_in g x i (apply_model m model_input t c))"
  by (simp add: spec_update_def spec_direction_def spec_denoised_def spec_model_call_def
      spec_update_from_eps_def Let_def)

lemma inversion_loop_calls:
  fixes m :: "('a::{one,plus,minus,times,inverse}) sd_model"
  assumes scal: "\<And>sg. length (get_scalings dnw sg) = skip + 2
             \<and> length (get_scalings dnw sg ! skip) = length sg
             \<and> length (get_scalings dnw sg ! (skip + 1)) = length sg"
    and model: "\<And>y t c. shape (apply_model m y t c) = shape y"
    and m: "shared_sd_model sh = m"
    and len: "length s_in = length x0"
  shows "\<exists>sh'. inversion_loop dnw skip sigmas s_in p cond uncond g [1..<k + 1] (x0, sh) =
                 Inr (spec_latent_after m dnw skip sigmas s_in p cond uncond g x0 k, sh')
             \<and> shared_sd_model sh' = m
             \<and> apply_model_log sh' = apply_model_log sh @
                 map (\<lambda>i. spec_model_call dnw skip sigmas s_in p cond uncond i
                            (spec_latent_after m dnw skip sigmas s_in p cond uncond g x0 (i - 1)))
                   [1..<k + 1]
             \<and> job_no (state sh') = job_no (state sh)
             \<and> shape (spec_latent_after m dnw skip sigmas s_in p cond uncond g x0 k) = shape x0"
proof (induction k)
  case 0
  show ?case using m by simp
next
  case (Suc k)
  let ?x = "spec_latent_after m dnw skip sigmas s_in p cond uncond g x0 k"
  let ?x' = "spec_latent_after m dnw skip sigmas s_in p cond uncond g x0 (Suc k)"
  from Suc obtain sh1 where
    loop: "inversion_loop dnw skip sigmas s_in p cond uncond g [1..<k + 1] (x0, sh) = Inr (?x, sh1)"
    and m1: "shared_sd_model sh1 = m"
    and log1: "apply_model_log sh1 = apply_model_log sh @
                 map (\<lambda>i. spec_model_call dnw skip sigmas s_in p cond uncond i
                            (spec_latent_after m dnw skip sigmas s_in p cond uncond g x0 (i - 1)))
                   [1..<k + 1]"
    and jn1: "job_no (state sh1) = job_no (state sh)"
    and shp1: "shape ?x = shape x0"
    by blast
  have len1: "length s_in = length ?x"
    using len shape_length [OF shp1] by simp
  have upd: "spec_update m dnw skip sigmas s_in p cond uncond g ?x (Suc k) = ?x'"
    by (simp add: spec_update_applies_model Let_def)
  let ?sh2 = "store_latent ?x'
                  (sh1\<lparr>apply_model_log := apply_model_log sh1 @
                       [spec_model_call dnw skip sigmas s_in p cond uncond (Suc k) ?x]\<rparr>)"
  from inversion_step_refines [OF scal model m1 len1, of sigmas p cond uncond g "Suc k"]
  have step: "inversion_step dnw skip sigmas s_in p cond uncond g (Suc k) (?x, sh1) = Inr (?x', ?sh2)"
    and shp2: "shape ?x' = shape ?x"
    by (simp_all only: upd spec_model_call_def)
  have split: "[1..<Suc k + 1] = [1..<k + 1] @ [Suc k]"
    by simp
  have "inversion_loop dnw skip sigmas s_in p cond uncond g [1..<Suc k + 1] (x0, sh) = Inr (?x', ?sh2)"
    by (simp only: split inversion_loop_append loop bindE_Inr inversion_loop.simps step)
  moreover have "shared_sd_model ?sh2 = m"
    using m1 by (simp add: store_latent_def)
  moreover have "apply_model_log ?sh2 = apply_model_log sh @
                 map (\<lambda>i. spec_model_call dnw skip sigmas s_in p cond uncond i
                            (spec_latent_after m dnw skip sigmas s_in p cond uncond g x0 (i - 1)))
                   [1..<Suc k + 1]"
    using log1 by (simp add: store_latent_def)
  moreover have "job_no (state ?sh2) = job_no (state sh)"
    using jn1 by (simp add: store_latent_def)
  moreover have "shape ?x' = shape x0"
    using shp2 shp1 by simp
  ultimately show ?case by blast
qed


lemma find_noise_calls:
  fixes K :: "('a::{one,plus,minus,times,inverse}) k_external"
  assumes sel: "select_denoiser K (shared_sd_model sh) = (dnw, skip)"
    and sched: "length (get_sigmas dnw s) = s + 1"
    and scal: "\<And>sg. length (get_scalings dnw sg) = skip + 2
             \<and> length (get_scalings dnw sg ! skip) = length sg
             \<and> length (get_scalings dnw sg ! (skip + 1)) = length sg"
    and model: "\<And>y t c. shape (apply_model (shared_sd_model sh) y t c) = shape y"
  shows "\<exists>sh'. find_noise_for_image_sigma_adjustment K sh p cond uncond g s =
                 Inr (tensor_div_scalar
                        (spec_latent_after (shared_sd_model sh) dnw skip (rev (get_sigmas dnw s))
                           (new_ones (length (init_latent p))) p cond uncond g (init_latent p) s)
                        (last (rev (get_sigmas dnw s))), sh')
             \<and> apply_model_log sh' = apply_model_log sh @
                 map (\<lambda>i. spec_model_call dnw skip (rev (get_sigmas dnw s))
                            (new_ones (length (init_latent p))) p cond uncond i
                            (spec_latent_after (shared_sd_model sh) dnw skip (rev (get_sigmas dnw s))
                               (new_ones (length (init_latent p))) p cond uncond g (init_latent p) (i - 1)))
                   [1..<s + 1]"
proof -
  let ?m = "shared_sd_model sh"
  let ?sigmas = "rev (get_sigmas dnw s)"
  let ?s_in = "new_ones (length (init_latent p)) :: 'a vec"
  let ?sh0 = "sh\<lparr>state := (state sh)\<lparr>sampling_steps := s\<rparr>\<rparr>"
  have m0: "shared_sd_model ?sh0 = ?m" by simp
  have l0: "length ?s_in = length (init_latent p)" by (simp add: new_ones_def)
  have idx: "[1..<length ?sigmas] = [1..<s + 1]" using sched by simp
  from inversion_loop_calls [OF scal model m0 l0, of ?sigmas p cond uncond g s]
  obtain sh1 where
    loop: "inversion_loop dnw skip ?sigmas ?s_in p cond uncond g [1..<s + 1] (init_latent p, ?sh0) =
             Inr (spec_latent_after ?m dnw skip ?sigmas ?s_in p cond uncond g (init_latent p) s, sh1)"
    and log: "apply_model_log sh1 = apply_model_log ?sh0 @
                 map (\<lambda>i. spec_model_call dnw skip ?sigmas ?s_in p cond uncond i
                            (spec_latent_after ?m dnw skip ?sigmas ?s_in p cond uncond g (init_latent p) (i - 1)))
                   [1..<s + 1]"
    by blast
  have ne: "?sigmas \<noteq> []" using sched by auto
  have "find_noise_for_image_sigma_adjustment K sh p cond uncond g s =
          Inr (tensor_div_scalar
                 (spec_latent_after ?m dnw skip ?sigmas ?s_in p cond uncond g (init_latent p) s)
                 (last ?sigmas), nextjob sh1)"
    unfolding find_noise_for_image_sigma_adjustment_def
    apply (simp only: Let_def sel prod.case idx loop bindE_Inr)
    apply (simp add: last_item_def ne bindE_Inr del: rev_is_Nil_conv upt_Suc last_rev)
    done
  moreover have "apply_model_log (nextjob sh1) = apply_model_log sh @
                 map (\<lambda>i. spec_model_call dnw skip ?sigmas ?s_in p cond uncond i
                            (spec_latent_after ?m dnw skip ?sigmas ?s_in p cond uncond g (init_latent p) (i - 1)))
                   [1..<s + 1]"
    using log by (simp add: nextjob_def)
  ultimately show ?thesis by blast
qed

lemma demo_calls:
  "k = 0 \<or> k = 1 \<Longrightarrow>
   map (\<lambda>i. spec_model_call (demo_denoiser k) k (rev (get_sigmas (demo_denoiser k) 3))
                (new_ones (length (init_latent demo_request))) demo_request [[1]] [[2]] i
                (spec_latent_after (shared_sd_model (demo_shared par)) (demo_denoiser k) k
                   (rev (get_sigmas (demo_denoiser k) 3))
                   (new_ones (length (init_latent demo_request))) demo_request [[1]] [[2]] 3
                   (init_latent demo_request) (i - 1)))
     [1..<3 + 1] =
   [([[6, 10], [6, 10]], [10, 10], \<lparr>c_concat = [[[0], [0]]], c_crossattn = [[[2], [1]]]\<rparr>),
    ([[- 3, - 3], [- 3, - 3]], [10, 10], \<lparr>c_concat = [[[0], [0]]], c_crossattn = [[[2], [1]]]\<rparr>),
    ([[- 3, - 3], [- 3, - 3]], [20, 20], \<lparr>c_concat = [[[0], [0]]], c_crossattn = [[[2], [1]]]\<rparr>)]"
  by (elim disjE; simp; code_simp)

lemma demo_latent:
  "k = 0 \<or> k = 1 \<Longrightarrow>
   tensor_div_scalar
     (spec_latent_after (shared_sd_model (demo_shared par)) (demo_denoiser k) k
        (rev (get_sigmas (demo_denoiser k) 3))
        (new_ones (length (init_latent demo_request))) demo_request [[1]] [[2]] 3
        (init_latent demo_request) 3)
     (last (rev (get_sigmas (demo_denoiser k) 3))) = [[- (1 / 2), - (1 / 2)]]"
  by (elim disjE; simp; code_simp)

text \<open>
  Claim C2. For every step count \<open>s\<close>, when the schedule has \<open>s + 1\<close> sigmas the routine
  returns after exactly \<open>s\<close> applications of \<^verbatim>\<open>apply_model\<close>, one per step and in step
  order. The record of applications grows by exactly the \<open>s\<close> entries
  \<open>spec_model_call \<dots> i x\<^sub>i\<^sub>-\<^sub>1\<close> for \<open>i = 1, \<dots>, s\<close>: the doubled and scaled latent, the
  time step and the conditioning that the model is applied to at step \<open>i\<close>, where
  \<open>x\<^sub>i\<^sub>-\<^sub>1 = spec_latent_after \<dots> (i - 1)\<close> is the latent that the first \<open>i - 1\<close> applications
  produced. The returned noise is the latent after the \<open>s\<close>-th application, divided by the
  last sigma: each step's update consumes the output of that step's application of the model
  and of no other. The wrapper \<open>dnw\<close> and the offset \<open>skip\<close> are those of the model's
  parameterization, whichever it is: the offset only selects the scalings.
\<close>

theorem model_called_once_per_step:
  fixes K :: "('a::{one,plus,minus,times,inverse}) k_external"
  assumes "select_denoiser K (shared_sd_model sh) = (dnw, skip)"
    and "length (get_sigmas dnw s) = s + 1"
    and "\<And>sg. length (get_scalings dnw sg) = skip + 2
             \<and> length (get_scalings dnw sg ! skip) = length sg
             \<and> length (get_scalings dnw sg ! (skip + 1)) = length sg"
    and "\<And>y t c. shape (apply_model (shared_sd_model sh) y t c) = shape y"
  shows "\<exists>noise sh'. find_noise_for_image_sigma_adjustment K sh p cond uncond g s = Inr (noise, sh')
             \<and> length (apply_model_log sh') = length (apply_model_log sh) + s
             \<and> apply_model_log sh' = apply_model_log sh @
                 map (\<lambda>i. spec_model_call dnw skip (rev (get_sigmas dnw s))
                            (new_ones (length (init_latent p))) p cond uncond i
                            (spec_latent_after (shared_sd_model sh) dnw skip (rev (get_sigmas dnw s))
                               (new_ones (length (init_latent p))) p cond uncond g (init_latent p) (i - 1)))
                   [1..<s + 1]
             \<and> noise = tensor_div_scalar
                        (spec_latent_after (shared_sd_model sh) dnw skip (rev (get_sigmas dnw s))
                           (new_ones (length (init_latent p))) p cond uncond g (init_latent p) s)
                        (last (rev (get_sigmas dnw s)))"
proof -
  from find_noise_calls [OF assms, of p cond uncond g]
  obtain sh' where
    r: "find_noise_for_image_sigma_adjustment K sh p cond uncond g s =
                 Inr (tensor_div_scalar
                        (spec_latent_after (shared_sd_model sh) dnw skip (rev (get_sigmas dnw s))
                           (new_ones (length (init_latent p))) p cond uncond g (init_latent p) s)
                        (last (rev (get_sigmas dnw s))), sh')"
    and l: "apply_model_log sh' = apply_model_log sh @
                 map (\<lambda>i. spec_model_call dnw skip (rev (get_sigmas dnw s))
                            (new_ones (length (init_latent p))) p cond uncond i
                            (spec_latent_after (shared_sd_model sh) dnw skip (rev (get_sigmas dnw s))
                               (new_ones (length (init_latent p))) p cond uncond g (init_latent p) (i - 1)))
                   [1..<s + 1]"
    by blast
  from l have "length (apply_model_log sh') = length (apply_model_log sh @
                 map (\<lambda>i. spec_model_call dnw skip (rev (get_sigmas dnw s))
                            (new_ones (length (init_latent p))) p cond uncond i
                            (spec_latent_after (shared_sd_model sh) dnw skip (rev (get_sigmas dnw s))
                               (new_ones (length (init_latent p))) p cond uncond g (init_latent p) (i - 1)))
                   [1..<s + 1])"
    by (rule arg_cong)
  then have "length (apply_model_log sh') = length (apply_model_log sh) + s"
    by simp
  with r l show ?thesis by blast
qed

theorem model_called_once_per_step_witness:
  "(\<exists>sh'. find_noise_for_image_sigma_adjustment demo_K (demo_shared ''v'') demo_request [[1]] [[2]] 3 3 =
             Inr ([[- (1 / 2), - (1 / 2)]], sh')
         \<and> apply_model_log sh' =
             [([[6, 10], [6, 10]], [10, 10], \<lparr>c_concat = [[[0], [0]]], c_crossattn = [[[2], [1]]]\<rparr>),
              ([[- 3, - 3], [- 3, - 3]], [10, 10], \<lparr>c_concat = [[[0], [0]]], c_crossattn = [[[2], [1]]]\<rparr>),
              ([[- 3, - 3], [- 3, - 3]], [20, 20], \<lparr>c_concat = [[[0], [0]]], c_crossattn = [[[2], [1]]]\<rparr>)])
   \<and> (\<exists>sh'. find_noise_for_image_sigma_adjustment demo_K (demo_shared ''eps'') demo_request [[1]] [[2]] 3 3 =
             Inr ([[- (1 / 2), - (1 / 2)]], sh')
         \<and> apply_model_log sh' =
             [([[6, 10], [6, 10]], [10, 10], \<lparr>c_concat = [[[0], [0]]], c_crossattn = [[[2], [1]]]\<rparr>),
              ([[- 3, - 3], [- 3, - 3]], [10, 10], \<lparr>c_concat = [[[0], [0]]], c_crossattn = [[[2], [1]]]\<rparr>),
              ([[- 3, - 3], [- 3, - 3]], [20, 20], \<lparr>c_concat = [[[0], [0]]], c_crossattn = [[[2], [1]]]\<rparr>)])"
proof -
  have e: "apply_model_log (demo_shared par) = []" for par
    by (simp add: demo_shared_def)
  have k0: "(0::nat) = 0 \<or> (0::nat) = 1" and k1: "(1::nat) = 0 \<or> (1::nat) = 1"
    by simp_all
  from model_called_once_per_step
         [OF demo_select_v demo_schedule demo_scalings demo_model_shape,
           where s = 3 and p = demo_request and cond = "[[1]]" and uncond = "[[2]]" and g = 3]
  have v: "\<exists>sh'. find_noise_for_image_sigma_adjustment demo_K (demo_shared ''v'') demo_request [[1]] [[2]] 3 3 =
             Inr ([[- (1 / 2), - (1 / 2)]], sh')
         \<and> apply_model_log sh' =
             [([[6, 10], [6, 10]], [10, 10], \<lparr>c_concat = [[[0], [0]]], c_crossattn = [[[2], [1]]]\<rparr>),
              ([[- 3, - 3], [- 3, - 3]], [10, 10], \<lparr>c_concat = [[[0], [0]]], c_crossattn = [[[2], [1]]]\<rparr>),
              ([[- 3, - 3], [- 3, - 3]], [20, 20], \<lparr>c_concat = [[[0], [0]]], c_crossattn = [[[2], [1]]]\<rparr>)]"
    by (simp only: demo_calls [OF k1] demo_latent [OF k1] e append_Nil) blast
  from model_called_once_per_step
         [OF demo_select_eps demo_schedule demo_scalings demo_model_shape,
           where s = 3 and p = demo_request and cond = "[[1]]" and uncond = "[[2]]" and g = 3]
  have ep: "\<exists>sh'. find_noise_for_image_sigma_adjustment demo_K (demo_shared ''eps'') demo_request [[1]] [[2]] 3 3 =
             Inr ([[- (1 / 2), - (1 / 2)]], sh')
         \<and> apply_model_log sh' =
             [([[6, 10], [6, 10]], [10, 10], \<lparr>c_concat = [[[0], [0]]], c_crossattn = [[[2], [1]]]\<rparr>),
              ([[- 3, - 3], [- 3, - 3]], [10, 10], \<lparr>c_concat = [[[0], [0]]], c_crossattn = [[[2], [1]]]\<rparr>),
              ([[- 3, - 3], [- 3, - 3]], [20, 20], \<lparr>c_concat = [[[0], [0]]], c_crossattn = [[[2], [1]]]\<rparr>)]"
    by (simp only: demo_calls [OF k0] demo_latent [OF k0] e append_Nil) blast
  from v ep show ?thesis by (rule conjI)
qed

lemma inversion_step_same_model:
  "shared_sd_model sh1 = shared_sd_model sh2 \<Longrightarrow>
   rel_sum (=) (rel_prod (=) (\<lambda>a b. shared_sd_model a = shared_sd_model b))
     (inversion_step dnw skip sigmas s_in p cond uncond g i (x, sh1))
     (inversion_step dnw skip sigmas s_in p cond uncond g i (x, sh2))"
  by (auto simp: inversion_step_def bindE_def Let_def store_latent_def split: sum.splits prod.splits)

lemma inversion_loop_same_model:
  "shared_sd_model sh1 = shared_sd_model sh2 \<Longrightarrow>
   rel_sum (=) (rel_prod (=) (\<lambda>a b. shared_sd_model a = shared_sd_model b))
     (inversion_loop dnw skip sigmas s_in p cond uncond g js (x, sh1))
     (inversion_loop dnw skip sigmas s_in p cond uncond g js (x, sh2))"
proof (induction js arbitrary: x sh1 sh2)
  case Nil
  then show ?case by simp
next
  case (Cons i js)
  let ?step = "inversion_step dnw skip sigmas s_in p cond uncond g i"
  have rel: "rel_sum (=) (rel_prod (=) (\<lambda>a b. shared_sd_model a = shared_sd_model b))
               (?step (x, sh1)) (?step (x, sh2))"
    using Cons.prems by (rule inversion_step_same_model)
  show ?case
  proof (cases "?step (x, sh1)")
    case (Inl e)
    with rel have "?step (x, sh2) = Inl e"
      by (auto elim: rel_sum.cases)
    with Inl show ?thesis by (simp add: bindE_def)
  next
    case (Inr r1)
    obtain x1 s1 where r1: "r1 = (x1, s1)" by (cases r1)
    from rel Inr r1 obtain s2 where
      two: "?step (x, sh2) = Inr (x1, s2)" and same: "shared_sd_model s1 = shared_sd_model s2"
      by (auto elim: rel_sum.cases)
    from Cons.IH [OF same, of x1] Inr r1 two show ?thesis by (simp add: bindE_def)
  qed
qed

lemma find_noise_ignores_progress:
  "map_sum id fst (find_noise_for_image_sigma_adjustment K (sh\<lparr>state := st, apply_model_log := lg\<rparr>)
                     p cond uncond g n) =
   map_sum id fst (find_noise_for_image_sigma_adjustment K sh p cond uncond g n)"
proof -
  obtain dnw skip where sel: "select_denoiser K (shared_sd_model sh) = (dnw, skip)"
    by (cases "select_denoiser K (shared_sd_model sh)")
  let ?sigmas = "rev (get_sigmas dnw n)"
  let ?s_in = "new_ones (length (init_latent p))"
  let ?a = "(sh\<lparr>state := st, apply_model_log := lg\<rparr>)
              \<lparr>state := (state (sh\<lparr>state := st, apply_model_log := lg\<rparr>))\<lparr>sampling_steps := n\<rparr>\<rparr>"
  let ?b = "sh\<lparr>state := (state sh)\<lparr>sampling_steps := n\<rparr>\<rparr>"
  let ?loop = "inversion_loop dnw skip ?sigmas ?s_in p cond uncond g [1..<length ?sigmas]"
  have "shared_sd_model ?a = shared_sd_model ?b" by simp
  then have rel: "rel_sum (=) (rel_prod (=) (\<lambda>a b. shared_sd_model a = shared_sd_model b))
               (?loop (init_latent p, ?a)) (?loop (init_latent p, ?b))"
    by (rule inversion_loop_same_model)
  have lhs: "find_noise_for_image_sigma_adjustment K (sh\<lparr>state := st, apply_model_log := lg\<rparr>) p cond uncond g n =
      bindE (?loop (init_latent p, ?a))
        (\<lambda>(x, sh). bindE (last_item ?sigmas) (\<lambda>terminal. Inr (tensor_div_scalar x terminal, nextjob sh)))"
  proof -
    have m: "shared_sd_model (sh\<lparr>state := st, apply_model_log := lg\<rparr>) = shared_sd_model sh"
      by simp
    show ?thesis
      by (simp only: find_noise_for_image_sigma_adjustment_def m sel Let_def prod.case)
  qed
  have rhs: "find_noise_for_image_sigma_adjustment K sh p cond uncond g n =
      bindE (?loop (init_latent p, ?b))
        (\<lambda>(x, sh). bindE (last_item ?sigmas) (\<lambda>terminal. Inr (tensor_div_scalar x terminal, nextjob sh)))"
    by (simp only: find_noise_for_image_sigma_adjustment_def sel Let_def prod.case)
  show ?thesis
  proof (cases "?loop (init_latent p, ?a)")
    case (Inl e)
    with rel have "?loop (init_latent p, ?b) = Inl e"
      by (auto elim: rel_sum.cases)
    with Inl show ?thesis unfolding lhs rhs by (simp add: bindE_def)
  next
    case (Inr r1)
    obtain x1 s1 where r1: "r1 = (x1, s1)" by (cases r1)
    from rel Inr r1 obtain s2 where two: "?loop (init_latent p, ?b) = Inr (x1, s2)"
      by (auto elim: rel_sum.cases)
    from Inr r1 two show ?thesis unfolding lhs rhs
      by (simp add: bindE_def last_item_def)
  qed
qed

lemma inversion_step_reads_conditioning:
  "image_conditioning p' = image_conditioning p \<Longrightarrow>
   inversion_step dnw skip sigmas s_in p' cond uncond g i xs =
   inversion_step dnw skip sigmas s_in p cond uncond g i xs"
  by (simp add: inversion_step_def)

lemma inversion_loop_reads_conditioning:
  "image_conditioning p' = image_conditioning p \<Longrightarrow>
   inversion_loop dnw skip sigmas s_in p' cond uncond g js xs =
   inversion_loop dnw skip sigmas s_in p cond uncond g js xs"
proof (induction js arbitrary: xs)
  case Nil
  then show ?case by simp
next
  case (Cons i js)
  then have "inversion_loop dnw skip sigmas s_in p' cond uncond g js =
             inversion_loop dnw skip sigmas s_in p cond uncond g js"
    by (intro ext) simp
  then show ?case
    by (simp add: inversion_step_reads_conditioning [OF Cons.prems])
qed

lemma find_noise_reads_latent_and_conditioning:
  "init_latent p' = init_latent p \<Longrightarrow> image_conditioning p' = image_conditioning p \<Longrightarrow>
   find_noise_for_image_sigma_adjustment K sh p' cond uncond g n =
   find_noise_for_image_sigma_adjustment K sh p cond uncond g n"
proof -
  assume a: "init_latent p' = init_latent p" and b: "image_conditioning p' = image_conditioning p"
  show ?thesis
    unfolding find_noise_for_image_sigma_adjustment_def
    by (simp only: a inversion_loop_reads_conditioning [OF b])
qed

text \<open>
  Claim C7. The outcome of the routine (the noise, or the exception) is a function of what
  it is given: the schedule provider, the model, the conditioning pair, the guidance scale,
  the step count, and the request's initial latent together with the image conditioning
  it carries. Two invocations that agree on these have the same outcome, whatever the
  rest of the request and whatever progress state and call log the shared state holds
  when each of them starts; so also when the second starts from the state the first left.
\<close>

theorem inversion_is_deterministic:
  assumes "init_latent p' = init_latent p"
    and "image_conditioning p' = image_conditioning p"
    and "shared_sd_model sh' = shared_sd_model sh"
  shows "map_sum id fst (find_noise_for_image_sigma_adjustment K sh' p' cond uncond g n) =
         map_sum id fst (find_noise_for_image_sigma_adjustment K sh p cond uncond g n)"
proof -
  have "sh' = sh\<lparr>state := state sh', apply_model_log := apply_model_log sh'\<rparr>"
    using assms(3) by (cases sh, cases sh') simp
  then have "map_sum id fst (find_noise_for_image_sigma_adjustment K sh' p cond uncond g n) =
             map_sum id fst (find_noise_for_image_sigma_adjustment K sh p cond uncond g n)"
    using find_noise_ignores_progress
            [where K = K and sh = sh and st = "state sh'" and lg = "apply_model_log sh'" and p = p
               and cond = cond and uncond = uncond and g = g and n = n]
    by simp
  then show ?thesis
    by (simp only: find_noise_reads_latent_and_conditioning [OF assms(1) assms(2)])
qed

theorem inversion_is_deterministic_witness:
  "map_sum id fst (find_noise_for_image_sigma_adjustment demo_K
      ((demo_shared ''eps'')\<lparr>state := demo_progress\<lparr>job_no := 5, interrupted := True\<rparr>,
                             apply_model_log := [([[0]], [0], \<lparr>c_concat = [], c_crossattn = []\<rparr>)]\<rparr>)
      (demo_request\<lparr>prompt := ''another prompt'', cfg_scale := 12, steps := 9\<rparr>) [[1]] [[2]] 3 3) =
   map_sum id fst (find_noise_for_image_sigma_adjustment demo_K (demo_shared ''eps'') demo_request
      [[1]] [[2]] 3 3)
   \<and> map_sum id fst (find_noise_for_image_sigma_adjustment demo_K (demo_shared ''eps'') demo_request
      [[1]] [[2]] 3 3) = Inr [[- (1 / 2), - (1 / 2)]]"
proof -
  have "map_sum id fst (find_noise_for_image_sigma_adjustment demo_K (demo_shared ''eps'') demo_request
      [[1]] [[2]] 3 3) = Inr [[- (1 / 2), - (1 / 2)]]"
    by code_simp
  then show ?thesis
    using inversion_is_deterministic
            [where p' = "demo_request\<lparr>prompt := ''another prompt'', cfg_scale := 12, steps := 9\<rparr>"
               and p = demo_request
               and sh' = "(demo_shared ''eps'')\<lparr>state := demo_progress\<lparr>job_no := 5, interrupted := True\<rparr>,
                             apply_model_log := [([[0]], [0], \<lparr>c_concat = [], c_crossattn = []\<rparr>)]\<rparr>"
               and sh = "demo_shared ''eps''" and K = demo_K and cond = "[[1]]" and uncond = "[[2]]"
               and g = 3 and n = 3]
    by simp
qed

section \<open>The source video: what construction gives\<close>

lemma VideoVeilImage_of_array:
  "VideoVeilImage (Some a) img =
     Inr \<lparr>frame_array = a, frame_image = Image_fromarray (cvtColor_BGR2RGB a),
          transformed_image = None, height = array_height a, width = array_width a\<rparr>"
  by (simp add: VideoVeilImage_def)

lemma VideoVeilImage_of_image:
  "VideoVeilImage None (Some img) =
     Inr \<lparr>frame_array = np_array img, frame_image = img, transformed_image = None,
          height = array_height (np_array img), width = array_width (np_array img)\<rparr>"
  by (simp add: VideoVeilImage_def)

text \<open>
  Claim C6. When the path of the selected source kind is \<^verbatim>\<open>None\<close> or does not exist and
  errors are to be raised, construction raises the not-found exception, and no listing, no
  image and no video was opened before: the construction has no event. A run on such a
  source ends with that exception and leaves the world as it found it: no request reached
  the pipeline and the model was not called.
\<close>

theorem missing_source_raises:
  assumes "case (if use_dir then dp else vp) of
             None \<Rightarrow> True | Some path \<Rightarrow> \<not> path_exists fs path"
  shows "VideoVeilSourceVideo fs use_dir vp dp testing count True =
           (Inl (Exception ((if use_dir then ''Directory'' else ''Video'') @ '' not found: '' @ [CHR 0x27] @
                   str_path (if use_dir then dp else vp) @ [CHR 0x27] @ ''.'')), [])
         \<and> ((vp \<noteq> None \<and> vp \<noteq> Some [] \<or> dp \<noteq> None \<and> dp \<noteq> Some []) \<longrightarrow>
              run H fs date_string p use_dir vp dp color_correction testing count w =
                (Inl (Exception ((if use_dir then ''Directory'' else ''Video'') @ '' not found: '' @ [CHR 0x27] @
                   str_path (if use_dir then dp else vp) @ [CHR 0x27] @ ''.'')), w))"
proof -
  have c: "VideoVeilSourceVideo fs use_dir vp dp testing count True =
           (Inl (Exception ((if use_dir then ''Directory'' else ''Video'') @ '' not found: '' @ [CHR 0x27] @
                   str_path (if use_dir then dp else vp) @ [CHR 0x27] @ ''.'')), [])"
    using assms by (auto simp: VideoVeilSourceVideo_def Let_def split: option.splits)
  have "(vp \<noteq> None \<and> vp \<noteq> Some [] \<or> dp \<noteq> None \<and> dp \<noteq> Some []) \<Longrightarrow>
        run H fs date_string p use_dir vp dp color_correction testing count w =
                (Inl (Exception ((if use_dir then ''Directory'' else ''Video'') @ '' not found: '' @ [CHR 0x27] @
                   str_path (if use_dir then dp else vp) @ [CHR 0x27] @ ''.'')), w)"
    unfolding run_def Let_def c by auto
  with c show ?thesis by blast
qed

theorem missing_source_raises_witness:
  "VideoVeilSourceVideo demo_fs False (Some ''in/gone.mp4'') None False 1 True =
     (Inl (Exception (''Video not found: '' @ [CHR 0x27] @ ''in/gone.mp4'' @ [CHR 0x27] @ ''.'')), [])
   \<and> run (demo_host False) demo_fs ''2023-04-01T10-20-30'' demo_request False (Some ''in/gone.mp4'') None
        color_correction_option_none False 1 demo_world =
     (Inl (Exception (''Video not found: '' @ [CHR 0x27] @ ''in/gone.mp4'' @ [CHR 0x27] @ ''.'')), demo_world)
   \<and> VideoVeilSourceVideo demo_fs True (Some ''in/clip.mp4'') None True 1 True =
     (Inl (Exception (''Directory not found: '' @ [CHR 0x27] @ ''None'' @ [CHR 0x27] @ ''.'')), [])"
  using missing_source_raises [where use_dir = False and dp = None and vp = "Some ''in/gone.mp4''"
          and fs = demo_fs and testing = False and count = 1 and H = "demo_host False"
          and date_string = "''2023-04-01T10-20-30''" and p = demo_request
          and color_correction = color_correction_option_none and w = demo_world]
        missing_source_raises [where use_dir = True and dp = None and vp = "Some ''in/clip.mp4''"
          and fs = demo_fs and testing = True and count = 1 and H = "demo_host False"
          and date_string = "''2023-04-01T10-20-30''" and p = demo_request
          and color_correction = color_correction_option_none and w = demo_world]
  by (simp add: demo_fs_def str_path_def)


lemma empty_video_construction:
  "path_exists fs path \<and>
     (\<not> isOpened (VideoCapture fs path) \<or> decoded (VideoCapture fs path) = []) \<Longrightarrow>
   \<exists>sv. VideoVeilSourceVideo fs False (Some path) dp testing count throw = (Inr sv, [OpenVideo path])
        \<and> frames sv = [] \<and> video_width sv = 0 \<and> video_height sv = 0"
  by (auto simp: VideoVeilSourceVideo_def Let_def load_frames_from_video_def set_video_dimensions_def)

text \<open>
  Claim C5 fails on the code for a video source. A directory that exists and lists no file
  with a recognised image extension makes construction raise the no-images exception,
  after the listing alone. A video path that exists and whose container does not open, or
  opens and decodes nothing, makes construction return a source video with no frame and
  dimensions 0, without any exception, where the claim has the empty-source error. The
  run on such a video skips the block of the frames and raises only at \<^verbatim>\<open>return proc\<close>,
  with an UnboundLocalError, after the capture alone was opened and no request reached the
  pipeline.
\<close>

theorem empty_source_by_kind:
  "(path_exists fs dir \<and>
    filter (\<lambda>file_name. list_ex (\<lambda>ext. endswith file_name ext) image_extensions) (listdir fs dir) = [] \<longrightarrow>
      VideoVeilSourceVideo fs True vp (Some dir) testing count throw =
        (Inl (Exception (''No images (*.png, *.jpg, *.jpeg) found in '' @ [CHR 0x27] @ dir @ [CHR 0x27] @ ''.'')),
         [ListDir dir]))
   \<and> (path_exists fs path \<and>
        (\<not> isOpened (VideoCapture fs path) \<or> decoded (VideoCapture fs path) = []) \<longrightarrow>
      (\<exists>sv. VideoVeilSourceVideo fs False (Some path) dp testing count throw = (Inr sv, [OpenVideo path])
            \<and> frames sv = [] \<and> video_width sv = 0 \<and> video_height sv = 0)
      \<and> (path \<noteq> [] \<longrightarrow>
            run H fs date_string p False (Some path) dp color_correction testing count w =
              (Inl UnboundLocalError, w\<lparr>io_log := io_log w @ [OpenVideo path]\<rparr>)))"
proof (intro conjI impI)
  assume "path_exists fs dir \<and>
    filter (\<lambda>file_name. list_ex (\<lambda>ext. endswith file_name ext) image_extensions) (listdir fs dir) = []"
  then show "VideoVeilSourceVideo fs True vp (Some dir) testing count throw =
        (Inl (Exception (''No images (*.png, *.jpg, *.jpeg) found in '' @ [CHR 0x27] @ dir @ [CHR 0x27] @ ''.'')),
         [ListDir dir])"
    by (simp add: VideoVeilSourceVideo_def Let_def load_frames_from_folder_def)
next
  assume "path_exists fs path \<and>
        (\<not> isOpened (VideoCapture fs path) \<or> decoded (VideoCapture fs path) = [])"
  then show "\<exists>sv. VideoVeilSourceVideo fs False (Some path) dp testing count throw = (Inr sv, [OpenVideo path])
            \<and> frames sv = [] \<and> video_width sv = 0 \<and> video_height sv = 0"
    by (rule empty_video_construction)
next
  assume h: "path_exists fs path \<and>
        (\<not> isOpened (VideoCapture fs path) \<or> decoded (VideoCapture fs path) = [])"
    and ne: "path \<noteq> []"
  from empty_video_construction [OF h, of dp testing count True] obtain sv where
    c: "VideoVeilSourceVideo fs False (Some path) dp testing count True = (Inr sv, [OpenVideo path])"
    and e: "frames sv = []"
    by blast
  show "run H fs date_string p False (Some path) dp color_correction testing count w =
              (Inl UnboundLocalError, w\<lparr>io_log := io_log w @ [OpenVideo path]\<rparr>)"
    using ne by (simp add: run_def Let_def c e)
qed

theorem empty_source_by_kind_witness:
  "VideoVeilSourceVideo demo_fs True None (Some ''in/empty'') False 1 True =
        (Inl (Exception (''No images (*.png, *.jpg, *.jpeg) found in '' @ [CHR 0x27] @ ''in/empty'' @ [CHR 0x27] @ ''.'')),
         [ListDir ''in/empty''])
   \<and> (\<exists>sv. VideoVeilSourceVideo demo_fs False (Some ''in/broken.mp4'') None False 1 True =
              (Inr sv, [OpenVideo ''in/broken.mp4''])
            \<and> frames sv = [] \<and> video_width sv = 0 \<and> video_height sv = 0)
   \<and> run (demo_host False) demo_fs ''2023-04-01T10-20-30'' demo_request False (Some ''in/broken.mp4'') None
        color_correction_option_none False 1 demo_world =
      (Inl UnboundLocalError, demo_world\<lparr>io_log := [OpenVideo ''in/broken.mp4'']\<rparr>)"
  using empty_source_by_kind [where fs = demo_fs and dir = "''in/empty''" and vp = None and testing = False
          and count = 1 and throw = True and path = "''in/broken.mp4''" and dp = None
          and H = "demo_host False" and date_string = "''2023-04-01T10-20-30''" and p = demo_request
          and color_correction = color_correction_option_none and w = demo_world]
  by (simp add: demo_fs_def image_extensions_def endswith_def demo_world_def)

section \<open>The run: colour correction and interruption\<close>

lemma read_frames_untransformed:
  "list_all (\<lambda>f. transformed_image f = None) acc \<Longrightarrow> read_frames limit arrays acc = Inr fr \<Longrightarrow>
   list_all (\<lambda>f. transformed_image f = None) fr"
proof (induction arrays arbitrary: acc)
  case Nil
  then show ?case by simp
next
  case (Cons a arrays)
  show ?case
  proof (cases "case limit of None \<Rightarrow> False | Some k \<Rightarrow> length acc \<ge> k")
    case True
    with Cons.prems show ?thesis by simp
  next
    case False
    let ?f = "\<lparr>frame_array = a, frame_image = Image_fromarray (cvtColor_BGR2RGB a),
                transformed_image = None, height = array_height a, width = array_width a\<rparr>"
    from False Cons.prems(2) have "read_frames limit arrays (acc @ [?f]) = Inr fr"
      by (simp add: VideoVeilImage_of_array bindE_def)
    moreover have "list_all (\<lambda>f. transformed_image f = None) (acc @ [?f])"
      using Cons.prems(1) by simp
    ultimately show ?thesis by (rule Cons.IH [rotated])
  qed
qed

lemma load_images_untransformed:
  "list_all (\<lambda>f. transformed_image f = None) acc \<Longrightarrow> load_images fs dir limit names acc = (Inr fr, ev) \<Longrightarrow>
   list_all (\<lambda>f. transformed_image f = None) fr"
proof (induction names arbitrary: acc ev)
  case Nil
  then show ?case by simp
next
  case (Cons name names)
  show ?case
  proof (cases "case limit of None \<Rightarrow> False | Some k \<Rightarrow> length acc \<ge> k")
    case True
    with Cons.prems show ?thesis by simp
  next
    case False
    define img where "img = (if \<not> mode (Image_open fs (path_join dir name)) = ''RGB''
                            then convert_RGB (Image_open fs (path_join dir name))
                            else Image_open fs (path_join dir name))"
    let ?f = "\<lparr>frame_array = np_array img, frame_image = img, transformed_image = None,
                height = array_height (np_array img), width = array_width (np_array img)\<rparr>"
    from False Cons.prems(2) obtain ev' where "load_images fs dir limit names (acc @ [?f]) = (Inr fr, ev')"
      by (auto simp: Let_def img_def [symmetric] VideoVeilImage_of_image split: prod.splits)
    moreover have "list_all (\<lambda>f. transformed_image f = None) (acc @ [?f])"
      using Cons.prems(1) by simp
    ultimately show ?thesis by (rule Cons.IH [rotated])
  qed
qed

lemma constructed_frames_untransformed:
  "VideoVeilSourceVideo fs use_dir vp dp testing count throw = (Inr sv, ev) \<Longrightarrow>
   list_all (\<lambda>f. transformed_image f = None) (frames sv)"
  by (auto simp: VideoVeilSourceVideo_def Let_def load_frames_from_folder_def load_frames_from_video_def
      set_video_dimensions_def
      split: if_splits option.splits prod.splits sum.splits list.splits
      dest: read_frames_untransformed [rotated] load_images_untransformed [rotated])

lemma generated_image_reference_is_last_frame:
  "color_corrections (frame_request H p color_correction_option_generated_image all_frames fr) =
     (case (if all_frames = [] then None else transformed_image (last all_frames)) of
        None \<Rightarrow> color_corrections p
      | Some img \<Rightarrow> Some [setup_color_correction H img])"
  by (simp add: frame_request_def Let_def apply_img2img_alternate_fix_def
      color_correction_option_generated_image_def color_correction_option_none_def
      color_correction_option_video_def split: option.splits)

lemma frame_loop_never_corrects:
  "length (frames (source_video vars)) = N \<Longrightarrow>
   (\<forall>j. i \<le> j \<and> j < N \<longrightarrow> transformed_image (frames (source_video vars) ! j) = None) \<Longrightarrow>
   \<exists>new. process_log (snd (frame_loop H p color_correction_option_generated_image [i..<N] vars w)) =
           process_log w @ new
       \<and> list_all (\<lambda>rq. color_corrections rq = color_corrections p) new"
proof (induction "N - i" arbitrary: i vars w)
  case 0
  then show ?case by simp
next
  case (Suc d)
  then have lt: "i < N" by simp
  then have upt: "[i..<N] = i # [Suc i..<N]" by (simp add: upt_rec)
  let ?fs = "frames (source_video vars)"
  have ne: "?fs \<noteq> []" using Suc.prems(1) lt by auto
  have "last ?fs = ?fs ! (N - 1)" using ne Suc.prems(1) by (simp add: last_conv_nth)
  with Suc.prems(2) lt have lastNone: "transformed_image (last ?fs) = None" by simp
  define w0 where "w0 = (if skipped (state (shared w))
               then w\<lparr>shared := (shared w)\<lparr>state := (state (shared w))\<lparr>skipped := False\<rparr>\<rparr>\<rparr>
               else w)"
  have log0: "process_log w0 = process_log w" by (simp add: w0_def)
  let ?rq = "frame_request H p color_correction_option_generated_image ?fs (?fs ! i)"
  have rq: "color_corrections ?rq = color_corrections p"
    using ne lastNone by (simp add: generated_image_reference_is_last_frame)
  show ?case
  proof (cases "interrupted (state (shared w0))")
    case True
    then show ?thesis
      unfolding upt by (simp add: Let_def w0_def [symmetric] log0)
  next
    case False
    obtain r w1 where body: "frame_body H p color_correction_option_generated_image i vars w0 = (r, w1)"
      by (cases "frame_body H p color_correction_option_generated_image i vars w0")
    have log1: "process_log w1 = process_log w @ [?rq]"
      using body log0
      by (auto simp: frame_body_def Let_def split: sum.splits prod.splits)
    show ?thesis
    proof (cases r)
      case (Inl e)
      with False body log1 rq show ?thesis
        unfolding upt by (simp add: Let_def w0_def [symmetric])
    next
      case (Inr vars')
      with body have len': "length (frames (source_video vars')) = N"
        and rest: "\<forall>j. Suc i \<le> j \<and> j < N \<longrightarrow> transformed_image (frames (source_video vars') ! j) = None"
        using Suc.prems
        by (auto simp: frame_body_def Let_def split: sum.splits prod.splits)
      have "d = N - Suc i" using Suc.hyps(2) by simp
      from Suc.hyps(1) [OF this len' rest, of w1] obtain new where
        "process_log (snd (frame_loop H p color_correction_option_generated_image [Suc i..<N] vars' w1)) =
           process_log w1 @ new"
        and "list_all (\<lambda>rq. color_corrections rq = color_corrections p) new"
        by blast
      with False body Inr log1 rq show ?thesis
        unfolding upt by (simp add: Let_def w0_def [symmetric])
    qed
  qed
qed

text \<open>
  Claim C3 fails on the code. With colour correction from the generated image, every
  request that a run hands to the pipeline carries the colour corrections of the base
  request unchanged: no reference is ever attached, for frame 0 and for every later frame
  alike, where the claim has the reference of the previous frame's transformed image. The
  loop reads \<^verbatim>\<open>source_video.frames[-1]\<close>, the last frame of the whole video, and that frame
  has no transformed image as long as the loop runs.
\<close>

theorem generated_image_correction_is_never_attached:
  "\<exists>new. process_log (snd (run H fs date_string p use_dir vp dp color_correction_option_generated_image
                               testing count w)) = process_log w @ new
       \<and> list_all (\<lambda>rq. color_corrections rq = color_corrections p) new"
proof (cases "vp \<noteq> None \<and> vp \<noteq> Some [] \<or> dp \<noteq> None \<and> dp \<noteq> Some []")
  case False
  then show ?thesis
    by (auto simp: run_def Let_def split: sum.splits prod.splits)
next
  case True
  obtain r ev where c: "VideoVeilSourceVideo fs use_dir vp dp testing count True = (r, ev)"
    by (cases "VideoVeilSourceVideo fs use_dir vp dp testing count True")
  show ?thesis
  proof (cases r)
    case (Inl e)
    with True c show ?thesis by (auto simp: run_def Let_def)
  next
    case (Inr sv)
    with c have un: "list_all (\<lambda>f. transformed_image f = None) (frames sv)"
      by (auto dest: constructed_frames_untransformed)
    show ?thesis
    proof (cases "frames sv = []")
      case empty: True
      with True c Inr show ?thesis by (auto simp: run_def Let_def)
    next
      case nonempty: False
      define w0 where "w0 = w\<lparr>io_log := io_log w @ ev,
                              shared := (shared (w\<lparr>io_log := io_log w @ ev\<rparr>))
                                \<lparr>state := (state (shared (w\<lparr>io_log := io_log w @ ev\<rparr>)))
                                  \<lparr>job_count := length (frames sv) * n_iter p, job_no := 0\<rparr>\<rparr>\<rparr>"
      have log0: "process_log w0 = process_log w" by (simp add: w0_def)
      let ?vars = "\<lparr>source_video = sv, proc = None, cp = None\<rparr>"
      have "\<forall>j. 0 \<le> j \<and> j < length (frames sv) \<longrightarrow> transformed_image (frames (source_video ?vars) ! j) = None"
        using un by (simp add: list_all_length)
      from frame_loop_never_corrects [of ?vars "length (frames sv)" 0, OF _ this, of H p w0]
      obtain new where
        l: "process_log (snd (frame_loop H p color_correction_option_generated_image
                                 [0..<length (frames sv)] ?vars w0)) = process_log w @ new"
        and a: "list_all (\<lambda>rq. color_corrections rq = color_corrections p) new"
        using log0 by auto
      have "process_log (snd (run H fs date_string p use_dir vp dp color_correction_option_generated_image
                               testing count w)) = process_log w @ new"
        using True c Inr nonempty l
        by (auto simp: run_def Let_def w0_def split: sum.splits prod.splits option.splits)
      with a show ?thesis by blast
    qed
  qed
qed


theorem generated_image_correction_is_never_attached_witness:
  "map color_corrections
     (process_log (snd (run (demo_host False) demo_fs ''2023-04-01T10-20-30'' demo_request False
        (Some ''in/clip.mp4'') None color_correction_option_generated_image False 1 demo_world))) =
   [None, None]
   \<and> io_log (snd (run (demo_host False) demo_fs ''2023-04-01T10-20-30'' demo_request False
        (Some ''in/clip.mp4'') None color_correction_option_generated_image False 1 demo_world)) =
   [OpenVideo ''in/clip.mp4'', OpenVideo ''in/clip.mp4'', MakeDirs ''out/video-veil-output'',
    OpenWriter ''out/video-veil-output/2023-04-01T10-20-30-42-clip.mp4'' ''mp4v'' 24 (1, 1),
    WriteFrame [[(10, 20, 30)]], WriteFrame [[(40, 50, 60)]], ReleaseWriter]"
proof -
  let ?w = "snd (run (demo_host False) demo_fs ''2023-04-01T10-20-30'' demo_request False
        (Some ''in/clip.mp4'') None color_correction_option_generated_image False 1 demo_world)"
  from generated_image_correction_is_never_attached
         [where H = "demo_host False" and fs = demo_fs and date_string = "''2023-04-01T10-20-30''"
            and p = demo_request and use_dir = False and vp = "Some ''in/clip.mp4''" and dp = None
            and testing = False and count = 1 and w = demo_world]
  obtain new where eq: "process_log ?w = process_log demo_world @ new"
    and no: "list_all (\<lambda>rq. color_corrections rq = color_corrections demo_request) new"
    by blast
  have two: "length (process_log ?w) = 2"
    by code_simp
  from eq have "process_log ?w = new" by (simp add: demo_world_def)
  with two no have "map color_corrections (process_log ?w) = [None, None]"
    by (auto simp: demo_request_def length_Suc_conv numeral_2_eq_2)
  moreover have "io_log ?w =
   [OpenVideo ''in/clip.mp4'', OpenVideo ''in/clip.mp4'', MakeDirs ''out/video-veil-output'',
    OpenWriter ''out/video-veil-output/2023-04-01T10-20-30-42-clip.mp4'' ''mp4v'' 24 (1, 1),
    WriteFrame [[(10, 20, 30)]], WriteFrame [[(40, 50, 60)]], ReleaseWriter]"
    by code_simp
  ultimately show ?thesis by blast
qed

lemma constructed_fields:
  "VideoVeilSourceVideo fs use_dir vp dp testing count throw = (Inr sv, ev) \<Longrightarrow>
   test_run sv = testing \<and> use_images_directory sv = use_dir \<and> video_path sv = vp
   \<and> directory_upload_path sv = dp
   \<and> (frames sv \<noteq> [] \<longrightarrow> (if use_dir then dp \<noteq> None else vp \<noteq> None))"
  by (auto simp: VideoVeilSourceVideo_def Let_def set_video_dimensions_def
      split: if_splits option.splits prod.splits sum.splits list.splits)

lemma write_frames_unprocessed:
  "list_ex (\<lambda>f. transformed_image f = None) fr \<Longrightarrow>
   fst (write_frames fr) = Some CvError \<and> ReleaseWriter \<notin> set (snd (write_frames fr))"
  by (induction fr) (auto split: option.splits prod.splits)

text \<open>
  Claim C4 fails on the code. Take a source of at least two frames that is not a test run,
  and a pipeline that returns an image and leaves the interrupt flag up, as when the user
  interrupts while the first frame is processed. The loop stops before the second frame:
  one request reached the pipeline. The assembly then goes over all frames of the video
  and raises at the first one without a transformed image, so the run ends with the
  exception of \<^verbatim>\<open>cv2.cvtColor\<close> where the claim has a video of the processed frames.
\<close>

theorem interrupted_run_raises_in_assembly:
  assumes construct: "VideoVeilSourceVideo fs use_dir vp dp False count True = (Inr sv, ev)"
    and enabled: "vp \<noteq> None \<and> vp \<noteq> Some [] \<or> dp \<noteq> None \<and> dp \<noteq> Some []"
    and two: "length (frames sv) \<ge> 2"
    and calm: "\<not> interrupted (state (shared w))"
    and host: "\<And>rq sh. init_images rq \<noteq> [] \<Longrightarrow> \<exists>img imgs sd sh'.
                 process_images H rq sh = Inr (\<lparr>images = img # imgs, seed = sd\<rparr>, sh')
                 \<and> interrupted (state sh')"
  shows "fst (run H fs date_string p use_dir vp dp color_correction False count w) = Inl CvError
         \<and> length (process_log (snd (run H fs date_string p use_dir vp dp color_correction False count w))) =
             length (process_log w) + 1"
proof -
  from two obtain f0 f1 rest where fr: "frames sv = f0 # f1 # rest"
    by (cases "frames sv"; cases "tl (frames sv)") auto
  from constructed_frames_untransformed [OF construct] fr
  have f1: "transformed_image f1 = None" by simp
  from constructed_fields [OF construct] fr
  have flds: "\<not> test_run sv" "use_images_directory sv = use_dir" "video_path sv = vp"
    "directory_upload_path sv = dp" "if use_dir then dp \<noteq> None else vp \<noteq> None"
    by simp_all
  define N where "N = length (frames sv)"
  have "2 \<le> N" using two by (simp add: N_def)
  then have upt: "[0..<N] = 0 # Suc 0 # [Suc (Suc 0)..<N]"
    by (simp add: upt_conv_Cons)
  define w0 where "w0 = w\<lparr>io_log := io_log w @ ev,
                          shared := (shared (w\<lparr>io_log := io_log w @ ev\<rparr>))
                            \<lparr>state := (state (shared (w\<lparr>io_log := io_log w @ ev\<rparr>)))
                              \<lparr>job_count := length (frames sv) * n_iter p, job_no := 0\<rparr>\<rparr>\<rparr>"
  define w1 where "w1 = (if skipped (state (shared w0))
               then w0\<lparr>shared := (shared w0)\<lparr>state := (state (shared w0))\<lparr>skipped := False\<rparr>\<rparr>\<rparr>
               else w0)"
  have calm1: "\<not> interrupted (state (shared w1))" and log1: "process_log w1 = process_log w"
    using calm by (simp_all add: w1_def w0_def)
  let ?vars = "\<lparr>source_video = sv, proc = None, cp = None\<rparr>"
  define sh where "sh = (shared w1)\<lparr>state := (state (shared w1))
                     \<lparr>job := str_nat (job_no (state (shared w1)) + 1) @ '' out of '' @
                             str_nat (job_count (state (shared w1)))\<rparr>\<rparr>"
  define rq where "rq = frame_request H p color_correction (frames sv) f0"
  have "init_images rq \<noteq> []"
    by (simp add: rq_def frame_request_def Let_def apply_img2img_alternate_fix_def split: option.splits)
  from host [OF this, of sh] obtain img imgs sd sh' where
    pi: "process_images H rq sh = Inr (\<lparr>images = img # imgs, seed = sd\<rparr>, sh')"
    and up: "interrupted (state sh')"
    by blast
  define vars1 where "vars1 = ?vars\<lparr>source_video := sv\<lparr>frames := set_transformed_image f0 img # f1 # rest\<rparr>,
                                   proc := Some \<lparr>images = img # imgs, seed = sd\<rparr>, cp := Some rq\<rparr>"
  define w2 where "w2 = w1\<lparr>shared := sh, process_log := process_log w1 @ [rq], shared := sh'\<rparr>"
  have body: "frame_body H p color_correction 0 ?vars w1 = (Inr vars1, w2)"
    using pi
    by (simp add: frame_body_def Let_def fr sh_def rq_def first_item_def vars1_def w2_def)
  define w3 where "w3 = (if skipped (state (shared w2))
               then w2\<lparr>shared := (shared w2)\<lparr>state := (state (shared w2))\<lparr>skipped := False\<rparr>\<rparr>\<rparr>
               else w2)"
  have up3: "interrupted (state (shared w3))" and log3: "process_log w3 = process_log w @ [rq]"
    using up log1 by (simp_all add: w3_def w2_def)
  have loop: "frame_loop H p color_correction [0..<N] ?vars w0 = (Inr vars1, w3)"
    unfolding upt
    using calm1 body up3
    by (simp add: Let_def w1_def [symmetric] w3_def [symmetric])
  have "list_ex (\<lambda>f. transformed_image f = None) (frames (source_video vars1))"
    using f1 by (simp add: vars1_def)
  from write_frames_unprocessed [OF this]
  obtain written where wf: "write_frames (frames (source_video vars1)) = (Some CvError, written)"
    by (cases "write_frames (frames (source_video vars1))") auto
  have flds1: "\<not> test_run (source_video vars1)" "use_images_directory (source_video vars1) = use_dir"
    "video_path (source_video vars1) = vp" "directory_upload_path (source_video vars1) = dp"
    using flds by (simp_all add: vars1_def)
  have "\<exists>ev'. create_mp4 fs date_string (source_video vars1) sd (outpath_samples rq) = (Inl CvError, ev')"
    using flds1 flds(5) wf
    by (cases use_dir) (auto simp: create_mp4_def Let_def split: option.splits)
  then obtain ev' where mp4: "create_mp4 fs date_string (source_video vars1) sd (outpath_samples rq) = (Inl CvError, ev')"
    by blast
  have pv: "proc vars1 = Some \<lparr>images = img # imgs, seed = sd\<rparr>" "cp vars1 = Some rq"
    by (simp_all add: vars1_def)
  have "run H fs date_string p use_dir vp dp color_correction False count w =
          (Inl CvError, w3\<lparr>io_log := io_log w3 @ ev'\<rparr>)"
  proof -
    have ne: "frames sv \<noteq> []" using fr by simp
    show ?thesis
      using enabled ne loop [unfolded w0_def N_def] pv mp4
      by (auto simp add: run_def Let_def construct)
  qed
  then show ?thesis using log3 by simp
qed


theorem interrupted_run_raises_in_assembly_witness:
  "fst (run (demo_host True) demo_fs ''2023-04-01T10-20-30'' demo_request False
        (Some ''in/clip.mp4'') None color_correction_option_none False 1 demo_world) = Inl CvError
   \<and> length (process_log (snd (run (demo_host True) demo_fs ''2023-04-01T10-20-30'' demo_request False
        (Some ''in/clip.mp4'') None color_correction_option_none False 1 demo_world))) = 1
   \<and> io_log (snd (run (demo_host True) demo_fs ''2023-04-01T10-20-30'' demo_request False
        (Some ''in/clip.mp4'') None color_correction_option_none False 1 demo_world)) =
   [OpenVideo ''in/clip.mp4'', OpenVideo ''in/clip.mp4'', MakeDirs ''out/video-veil-output'',
    OpenWriter ''out/video-veil-output/2023-04-01T10-20-30-42-clip.mp4'' ''mp4v'' 24 (1, 1),
    WriteFrame [[(10, 20, 30)]]]"
proof -
  define sv where "sv =
     \<lparr>frames =
             [\<lparr>frame_array = [[(10, 20, 30)]], frame_image = \<lparr>mode = ''RGB'', pixels = [[(30, 20, 10)]]\<rparr>,
               transformed_image = None, height = 1, width = 1\<rparr>,
              \<lparr>frame_array = [[(40, 50, 60)]], frame_image = \<lparr>mode = ''RGB'', pixels = [[(60, 50, 40)]]\<rparr>,
               transformed_image = None, height = 1, width = 1\<rparr>],
           use_images_directory = False, video_path = Some ''in/clip.mp4'', directory_upload_path = None,
           test_run = False, test_run_frames_count = None, output_video_path = None,
           video_width = 1, video_height = 1, output_path = None\<rparr>"
  have c: "VideoVeilSourceVideo demo_fs False (Some ''in/clip.mp4'') None False 1 True =
             (Inr sv, [OpenVideo ''in/clip.mp4''])"
    by (simp add: sv_def VideoVeilSourceVideo_def demo_fs_def load_frames_from_video_def
        set_video_dimensions_def VideoVeilImage_def bindE_def Image_fromarray_def cvtColor_BGR2RGB_def
        swap_channels_def array_height_def array_width_def)
  have e: "Some ''in/clip.mp4'' \<noteq> None \<and> Some ''in/clip.mp4'' \<noteq> Some [] \<or> None \<noteq> None \<and> None \<noteq> Some []"
    by simp
  have t: "length (frames sv) \<ge> 2"
    by (simp add: sv_def)
  have q: "\<not> interrupted (state (shared demo_world))"
    by (simp add: demo_world_def demo_shared_def demo_progress_def)
  have h: "\<exists>img imgs sd sh'. process_images (demo_host True) rq sh = Inr (\<lparr>images = img # imgs, seed = sd\<rparr>, sh')
                 \<and> interrupted (state sh')" if "init_images rq \<noteq> []" for rq :: "real request" and sh
    using that by (cases "init_images rq") (simp_all add: demo_host_def)
  have io: "io_log (snd (run (demo_host True) demo_fs ''2023-04-01T10-20-30'' demo_request False
        (Some ''in/clip.mp4'') None color_correction_option_none False 1 demo_world)) =
   [OpenVideo ''in/clip.mp4'', OpenVideo ''in/clip.mp4'', MakeDirs ''out/video-veil-output'',
    OpenWriter ''out/video-veil-output/2023-04-01T10-20-30-42-clip.mp4'' ''mp4v'' 24 (1, 1),
    WriteFrame [[(10, 20, 30)]]]"
    by code_simp
  from interrupted_run_raises_in_assembly [OF c e t q h,
         where date_string = "''2023-04-01T10-20-30''" and p = demo_request
           and color_correction = color_correction_option_none] io
  show ?thesis
    by (simp add: demo_world_def)
qed

section \<open>Video assembly: the file it writes\<close>






section \<open>Channel order of the frames\<close>

lemma swap_bgr: "swap_channels (as_bgr c) = as_rgb c"
  by (simp add: swap_channels_def as_bgr_def as_rgb_def)

lemma read_frames_arrays:
  "\<exists>fr. read_frames limit arrays acc = Inr (acc @ fr)
      \<and> map frame_array fr = take (case limit of None \<Rightarrow> length arrays | Some k \<Rightarrow> k - length acc) arrays
      \<and> map (\<lambda>f. pixels (frame_image f)) fr = map cvtColor_BGR2RGB (map frame_array fr)"
proof (induction arrays arbitrary: acc)
  case Nil
  then show ?case by simp
next
  case (Cons a arrays)
  show ?case
  proof (cases "case limit of None \<Rightarrow> False | Some k \<Rightarrow> length acc \<ge> k")
    case True
    then show ?thesis by (auto split: option.splits)
  next
    case False
    let ?f = "\<lparr>frame_array = a, frame_image = Image_fromarray (cvtColor_BGR2RGB a),
                transformed_image = None, height = array_height a, width = array_width a\<rparr>"
    from Cons.IH [of "acc @ [?f]"] obtain fr where
      r: "read_frames limit arrays (acc @ [?f]) = Inr ((acc @ [?f]) @ fr)"
      and a: "map frame_array fr =
                take (case limit of None \<Rightarrow> length arrays | Some k \<Rightarrow> k - length (acc @ [?f])) arrays"
      and i: "map (\<lambda>f. pixels (frame_image f)) fr = map cvtColor_BGR2RGB (map frame_array fr)"
      by blast
    have "read_frames limit (a # arrays) acc = Inr (acc @ (?f # fr))"
      using False r by (simp add: VideoVeilImage_of_array bindE_def)
    moreover have "map frame_array (?f # fr) =
        take (case limit of None \<Rightarrow> length (a # arrays) | Some k \<Rightarrow> k - length acc) (a # arrays)"
      using False a by (auto split: option.splits simp: take_Cons')
    moreover have "map (\<lambda>f. pixels (frame_image f)) (?f # fr) = map cvtColor_BGR2RGB (map frame_array (?f # fr))"
      using i by (simp add: Image_fromarray_def)
    ultimately show ?thesis by blast
  qed
qed

lemma load_images_modes:
  "\<exists>fr. fst (load_images fs dir limit names acc) = Inr (acc @ fr)
      \<and> list_all (\<lambda>f. frame_array f = pixels (frame_image f) \<and> mode (frame_image f) = ''RGB'') fr"
proof (induction names arbitrary: acc)
  case Nil
  then show ?case by simp
next
  case (Cons name names)
  show ?case
  proof (cases "case limit of None \<Rightarrow> False | Some k \<Rightarrow> length acc \<ge> k")
    case True
    then show ?thesis by (auto split: option.splits)
  next
    case False
    define img where "img = (if \<not> mode (Image_open fs (path_join dir name)) = ''RGB''
                            then convert_RGB (Image_open fs (path_join dir name))
                            else Image_open fs (path_join dir name))"
    let ?f = "\<lparr>frame_array = np_array img, frame_image = img, transformed_image = None,
                height = array_height (np_array img), width = array_width (np_array img)\<rparr>"
    have m: "mode img = ''RGB''"
      by (simp add: img_def convert_RGB_def)
    from Cons.IH [of "acc @ [?f]"] obtain fr where
      r: "fst (load_images fs dir limit names (acc @ [?f])) = Inr ((acc @ [?f]) @ fr)"
      and l: "list_all (\<lambda>f. frame_array f = pixels (frame_image f) \<and> mode (frame_image f) = ''RGB'') fr"
      by blast
    from r obtain ev where
      r': "load_images fs dir limit names (acc @ [?f]) = (Inr ((acc @ [?f]) @ fr), ev)"
      by (cases "load_images fs dir limit names (acc @ [?f])") auto
    have "fst (load_images fs dir limit (name # names) acc) = Inr (acc @ (?f # fr))"
      using False r'
      by (simp add: Let_def img_def [symmetric] VideoVeilImage_of_image)
    moreover have "list_all (\<lambda>f. frame_array f = pixels (frame_image f) \<and> mode (frame_image f) = ''RGB'') (?f # fr)"
      using l m by (simp add: np_array_def)
    ultimately show ?thesis by blast
  qed
qed

text \<open>
  Claim C9. A frame made from a decoded video array keeps that array, blue first, as its
  \<open>frame_array\<close>, and its \<open>frame_image\<close> is the same picture red first; a frame made from
  an RGB image has the image's pixels, red first, as its \<open>frame_array\<close>. The request of a
  frame carries the frame's \<open>frame_array\<close> as the ControlNet input. The frames of a video
  source are made the first way, from the arrays the decoder gave, in order; the frames of
  a directory source are made the second way, from images in mode RGB.
\<close>

theorem frame_array_channel_order:
  "VideoVeilImage (Some (map (map as_bgr) picture)) None =
     Inr \<lparr>frame_array = map (map as_bgr) picture,
          frame_image = \<lparr>mode = ''RGB'', pixels = map (map as_rgb) picture\<rparr>,
          transformed_image = None, height = array_height (map (map as_bgr) picture),
          width = array_width (map (map as_bgr) picture)\<rparr>
   \<and> VideoVeilImage None (Some \<lparr>mode = ''RGB'', pixels = map (map as_rgb) picture\<rparr>) =
     Inr \<lparr>frame_array = map (map as_rgb) picture,
          frame_image = \<lparr>mode = ''RGB'', pixels = map (map as_rgb) picture\<rparr>,
          transformed_image = None, height = array_height (map (map as_rgb) picture),
          width = array_width (map (map as_rgb) picture)\<rparr>
   \<and> control_net_input_image (frame_request H p color_correction all_frames fr) = [frame_array fr]
   \<and> (\<exists>loaded. fst (load_frames_from_video fs path limit) = Inr loaded
         \<and> map frame_array loaded =
             take (case limit of None \<Rightarrow> length (decoded (VideoCapture fs path)) | Some k \<Rightarrow> k)
               (if isOpened (VideoCapture fs path) then decoded (VideoCapture fs path) else [])
         \<and> map (\<lambda>f. pixels (frame_image f)) loaded = map cvtColor_BGR2RGB (map frame_array loaded))
   \<and> (fst (load_frames_from_folder fs dir limit) =
         Inl (Exception (''No images (*.png, *.jpg, *.jpeg) found in '' @ [CHR 0x27] @ dir @ [CHR 0x27] @ ''.''))
       \<or> (\<exists>loaded. fst (load_frames_from_folder fs dir limit) = Inr loaded
             \<and> list_all (\<lambda>f. frame_array f = pixels (frame_image f) \<and> mode (frame_image f) = ''RGB'') loaded))"
proof (intro conjI)
  show "VideoVeilImage (Some (map (map as_bgr) picture)) None =
     Inr \<lparr>frame_array = map (map as_bgr) picture,
          frame_image = \<lparr>mode = ''RGB'', pixels = map (map as_rgb) picture\<rparr>,
          transformed_image = None, height = array_height (map (map as_bgr) picture),
          width = array_width (map (map as_bgr) picture)\<rparr>"
    by (simp add: VideoVeilImage_of_array Image_fromarray_def cvtColor_BGR2RGB_def comp_def swap_bgr)
next
  show "VideoVeilImage None (Some \<lparr>mode = ''RGB'', pixels = map (map as_rgb) picture\<rparr>) =
     Inr \<lparr>frame_array = map (map as_rgb) picture,
          frame_image = \<lparr>mode = ''RGB'', pixels = map (map as_rgb) picture\<rparr>,
          transformed_image = None, height = array_height (map (map as_rgb) picture),
          width = array_width (map (map as_rgb) picture)\<rparr>"
    by (simp add: VideoVeilImage_of_image np_array_def)
next
  show "control_net_input_image (frame_request H p color_correction all_frames fr) = [frame_array fr]"
    by (simp add: frame_request_def Let_def apply_img2img_alternate_fix_def split: option.splits)
next
  from read_frames_arrays [of limit "decoded (VideoCapture fs path)" "[]"]
  show "\<exists>loaded. fst (load_frames_from_video fs path limit) = Inr loaded
         \<and> map frame_array loaded =
             take (case limit of None \<Rightarrow> length (decoded (VideoCapture fs path)) | Some k \<Rightarrow> k)
               (if isOpened (VideoCapture fs path) then decoded (VideoCapture fs path) else [])
         \<and> map (\<lambda>f. pixels (frame_image f)) loaded = map cvtColor_BGR2RGB (map frame_array loaded)"
    by (cases limit) (auto simp: load_frames_from_video_def Let_def)
next
  define names where
    "names = filter (\<lambda>file_name. list_ex (\<lambda>ext. endswith file_name ext) image_extensions) (listdir fs dir)"
  from load_images_modes [of fs dir limit names "[]"] obtain loaded where
    l: "fst (load_images fs dir limit names []) = Inr loaded"
    and m: "list_all (\<lambda>f. frame_array f = pixels (frame_image f) \<and> mode (frame_image f) = ''RGB'') loaded"
    by auto
  from l obtain ev where l': "load_images fs dir limit names [] = (Inr loaded, ev)"
    by (cases "load_images fs dir limit names []") auto
  have "names \<noteq> [] \<Longrightarrow> fst (load_frames_from_folder fs dir limit) = Inr loaded"
    by (simp add: load_frames_from_folder_def Let_def names_def [symmetric] l')
  moreover have "names = [] \<Longrightarrow> fst (load_frames_from_folder fs dir limit) =
         Inl (Exception (''No images (*.png, *.jpg, *.jpeg) found in '' @ [CHR 0x27] @ dir @ [CHR 0x27] @ ''.''))"
    by (simp add: load_frames_from_folder_def Let_def names_def [symmetric])
  ultimately
  show "fst (load_frames_from_folder fs dir limit) =
         Inl (Exception (''No images (*.png, *.jpg, *.jpeg) found in '' @ [CHR 0x27] @ dir @ [CHR 0x27] @ ''.''))
       \<or> (\<exists>loaded. fst (load_frames_from_folder fs dir limit) = Inr loaded
             \<and> list_all (\<lambda>f. frame_array f = pixels (frame_image f) \<and> mode (frame_image f) = ''RGB'') loaded)"
    using m by blast
qed


section \<open>The sampling override: what it passes on\<close>

text \<open>
  Claim C10. The request that the run builds for a frame has the closure with the two
  fixed placeholder prompts as its sampling method, whatever the request's own prompts,
  and keeps the request's step count. Calling that method on a request inverts with
  guidance scale 1, with the conditioning the model learns from the two prompts of the
  closure, and with the request's step count; the noise handed to the delegate sampler is
  the inverted noise minus the request's initial latent divided by the first sigma of the
  sampler's schedule. The inversion does not depend on the request's prompt, negative
  prompt or CFG scale.
\<close>

theorem sampling_override_inverts_with_unit_guidance:
  fixes H :: "('a::{one,plus,minus,times,inverse}) host"
  shows
  "sample (frame_request H p color_correction all_frames fr) =
     SampleExtra fr ''This prompt should describe your input video''
       ''This is your negative prompt describing your input video''
   \<and> steps (frame_request H p color_correction all_frames fr) = steps p
   \<and> call_sample H (rq\<lparr>sample := SampleExtra fr pr npr\<rparr>) conditioning unconditional_conditioning
        seeds subseeds subseed_strength prompts sh =
      bindE (find_noise_for_image_sigma_adjustment (K_external H)
               (sh\<lparr>state := (state sh)\<lparr>job_count := job_count (state sh) + 1\<rparr>\<rparr>) rq
               (get_learned_conditioning (sd_model rq) [pr]) (get_learned_conditioning (sd_model rq) [npr])
               1 (steps rq))
        (\<lambda>(rec_noise, sh').
           bindE (first_item (get_sigmas (model_wrap (create_sampler H (sampler_name rq) (sd_model rq))) (steps rq)))
             (\<lambda>sigma0.
                bindE (tensor_sub rec_noise (tensor_div_scalar (init_latent rq) sigma0))
                  (\<lambda>noise_dt.
                     Inr (sample_img2img (create_sampler H (sampler_name rq) (sd_model rq))
                            (rq\<lparr>sample := SampleExtra fr pr npr\<rparr>) (init_latent rq) noise_dt conditioning
                            unconditional_conditioning (image_conditioning rq), sh'))))
   \<and> find_noise_for_image_sigma_adjustment (K_external H) sh
        (rq\<lparr>prompt := own_prompt, negative_prompt := own_negative, cfg_scale := own_scale\<rparr>) cond uncond g n =
      find_noise_for_image_sigma_adjustment (K_external H) sh rq cond uncond g n"
proof (intro conjI)
  show "sample (frame_request H p color_correction all_frames fr) =
     SampleExtra fr ''This prompt should describe your input video''
       ''This is your negative prompt describing your input video''"
    by (simp add: frame_request_def Let_def apply_img2img_alternate_fix_def split: option.splits)
next
  show "steps (frame_request H p color_correction all_frames fr) = steps p"
    by (simp add: frame_request_def Let_def apply_img2img_alternate_fix_def split: option.splits)
next
  have "find_noise_for_image_sigma_adjustment (K_external H)
               (sh\<lparr>state := (state sh)\<lparr>job_count := job_count (state sh) + 1\<rparr>\<rparr>)
               (rq\<lparr>sample := SampleExtra fr pr npr\<rparr>)
               (get_learned_conditioning (sd_model rq) [pr]) (get_learned_conditioning (sd_model rq) [npr])
               1 (steps rq) =
        find_noise_for_image_sigma_adjustment (K_external H)
               (sh\<lparr>state := (state sh)\<lparr>job_count := job_count (state sh) + 1\<rparr>\<rparr>) rq
               (get_learned_conditioning (sd_model rq) [pr]) (get_learned_conditioning (sd_model rq) [npr])
               1 (steps rq)"
    by (rule find_noise_reads_latent_and_conditioning) simp_all
  then show "call_sample H (rq\<lparr>sample := SampleExtra fr pr npr\<rparr>) conditioning unconditional_conditioning
        seeds subseeds subseed_strength prompts sh =
      bindE (find_noise_for_image_sigma_adjustment (K_external H)
               (sh\<lparr>state := (state sh)\<lparr>job_count := job_count (state sh) + 1\<rparr>\<rparr>) rq
               (get_learned_conditioning (sd_model rq) [pr]) (get_learned_conditioning (sd_model rq) [npr])
               1 (steps rq))
        (\<lambda>(rec_noise, sh').
           bindE (first_item (get_sigmas (model_wrap (create_sampler H (sampler_name rq) (sd_model rq))) (steps rq)))
             (\<lambda>sigma0.
                bindE (tensor_sub rec_noise (tensor_div_scalar (init_latent rq) sigma0))
                  (\<lambda>noise_dt.
                     Inr (sample_img2img (create_sampler H (sampler_name rq) (sd_model rq))
                            (rq\<lparr>sample := SampleExtra fr pr npr\<rparr>) (init_latent rq) noise_dt conditioning
                            unconditional_conditioning (image_conditioning rq), sh'))))"
    by (simp add: call_sample_def sample_extra_def Let_def)
next
  show "find_noise_for_image_sigma_adjustment (K_external H) sh
        (rq\<lparr>prompt := own_prompt, negative_prompt := own_negative, cfg_scale := own_scale\<rparr>) cond uncond g n =
      find_noise_for_image_sigma_adjustment (K_external H) sh rq cond uncond g n"
    by (rule find_noise_reads_latent_and_conditioning) simp_all
qed

end
